theory Spec2Isabelle
  imports Complex_Main
begin

section \<open>Python values shared by the modules\<close>


text \<open>
  A two-dimensional numpy array: its second dimension and its rows. The shape is
  \<open>(length (rows a), ncols a)\<close>; in a well-formed array every row has \<open>ncols a\<close> entries.
\<close>

datatype 'a array2d = Array2d (ncols: nat) (rows: "'a list list")










section \<open>app/utils/color\_utils.py\<close>






section \<open>app/config.py\<close>

definition ACCUMULATION_STEP :: int where
  "ACCUMULATION_STEP = 3"

definition EXCLUDED_SEGMENT_CLASSES :: "int set" where
  "EXCLUDED_SEGMENT_CLASSES = {- 1, 0, 1, 2, 4, 5, 9, 10, 12, 15, 20, 21, 17, 13}"

section \<open>app/services/data\_service.py\<close>

text \<open>
  The functions of this module read the dataset through collaborators whose code is
  outside the module: the \<open>PointceptDataset\<close> class, the helper
  \<open>group_instances_across_frames\<close>, \<open>os.path.exists\<close> and \<open>np.load\<close>. They are
  parameters of the model. Each reads the file system \<open>'w\<close> as it is at the time of the
  call and either returns or raises an exception \<open>'e\<close>.
\<close>

record ('e, 'w, 'd, 'a) data_collaborators =
  PointceptDataset :: "string \<Rightarrow> 'w \<Rightarrow> 'e + 'd"
  get_frame_dir :: "'d \<Rightarrow> string \<Rightarrow> string \<Rightarrow> 'w \<Rightarrow> 'e + string"
  dataset_get_frame_point_cloud :: "'d \<Rightarrow> string \<Rightarrow> string \<Rightarrow> 'w \<Rightarrow> 'e + 'a array2d"
  group_instances_across_frames :: "string \<Rightarrow> 'd \<Rightarrow> 'w \<Rightarrow> 'e + (int \<times> string list) list"
  path_exists :: "string \<Rightarrow> 'w \<Rightarrow> bool"
  np_load :: "string \<Rightarrow> 'w \<Rightarrow> 'e + int list"

text \<open>
  The decorators \<open>st.cache_resource\<close> and \<open>st.cache_data\<close> memoise a function on its
  arguments: a call whose arguments have an entry returns the entry without running the
  body, and a body that returns normally stores its result. A body that raises stores
  nothing. One cache per decorated function.
\<close>

record ('d, 'a) caches =
  dataset_cache :: "string \<rightharpoonup> 'd"
  point_cloud_cache :: "string \<times> string \<times> string \<rightharpoonup> 'a array2d"
  segments_cache :: "string \<times> string \<times> string \<rightharpoonup> int list"
  grouping_cache :: "string \<times> string \<rightharpoonup> (string \<times> string list) list"

definition get_dataset ::
  "('e, 'w, 'd, 'a) data_collaborators \<Rightarrow> string \<Rightarrow> 'w \<Rightarrow> ('d, 'a) caches
     \<Rightarrow> ('e + 'd) \<times> ('d, 'a) caches" where
  "get_dataset C data_root disk st =
     (case dataset_cache st data_root of
        Some d \<Rightarrow> (Inr d, st)
      | None \<Rightarrow>
         (case PointceptDataset C data_root disk of
            Inl e \<Rightarrow> (Inl e, st)
          | Inr d \<Rightarrow> (Inr d, st\<lparr>dataset_cache := (dataset_cache st)(data_root \<mapsto> d)\<rparr>)))"

definition get_frame_point_cloud ::
  "('e, 'w, 'd, 'a) data_collaborators \<Rightarrow> string \<Rightarrow> string \<Rightarrow> string \<Rightarrow> 'w
     \<Rightarrow> ('d, 'a) caches \<Rightarrow> ('e + 'a array2d) \<times> ('d, 'a) caches" where
  "get_frame_point_cloud C data_root scene_id frame_id disk st =
     (case point_cloud_cache st (data_root, scene_id, frame_id) of
        Some pc \<Rightarrow> (Inr pc, st)
      | None \<Rightarrow>
         (case get_dataset C data_root disk st of
            (Inl e, st1) \<Rightarrow> (Inl e, st1)
          | (Inr dataset, st1) \<Rightarrow>
             (case dataset_get_frame_point_cloud C dataset scene_id frame_id disk of
                Inl e \<Rightarrow> (Inl e, st1)
              | Inr pc \<Rightarrow>
                 (Inr pc, st1\<lparr>point_cloud_cache :=
                    (point_cloud_cache st1)((data_root, scene_id, frame_id) \<mapsto> pc)\<rparr>))))"

text \<open>\<open>os.path.join(frame_dir, "segment.npy")\<close> on a POSIX system, for a relative second
  component.\<close>

definition path_join :: "string \<Rightarrow> string \<Rightarrow> string" where
  "path_join a b =
     (if a = [] then b else if last a = CHR ''/'' then a @ b else a @ ''/'' @ b)"

text \<open>The body of \<open>get_frame_segments\<close>; \<open>pc.shape[1]\<close> is the second dimension of the
  point cloud and \<open>np.full(n, -1, dtype=np.int32)\<close> an array of \<open>n\<close> entries \<open>-1\<close>.\<close>

definition get_frame_segments_body ::
  "('e, 'w, 'd, 'a) data_collaborators \<Rightarrow> string \<Rightarrow> string \<Rightarrow> string \<Rightarrow> 'w
     \<Rightarrow> ('d, 'a) caches \<Rightarrow> ('e + int list) \<times> ('d, 'a) caches" where
  "get_frame_segments_body C data_root scene_id frame_id disk st =
     (case get_dataset C data_root disk st of
        (Inl e, st1) \<Rightarrow> (Inl e, st1)
      | (Inr dataset, st1) \<Rightarrow>
         (case get_frame_dir C dataset scene_id frame_id disk of
            Inl e \<Rightarrow> (Inl e, st1)
          | Inr frame_dir \<Rightarrow>
             (let segment_path = path_join frame_dir ''segment.npy'' in
              if path_exists C segment_path disk then (np_load C segment_path disk, st1)
              else
                (case get_frame_point_cloud C data_root scene_id frame_id disk st1 of
                   (Inl e, st2) \<Rightarrow> (Inl e, st2)
                 | (Inr pc, st2) \<Rightarrow> (Inr (replicate (ncols pc) (- 1)), st2)))))"

definition get_frame_segments ::
  "('e, 'w, 'd, 'a) data_collaborators \<Rightarrow> string \<Rightarrow> string \<Rightarrow> string \<Rightarrow> 'w
     \<Rightarrow> ('d, 'a) caches \<Rightarrow> ('e + int list) \<times> ('d, 'a) caches" where
  "get_frame_segments C data_root scene_id frame_id disk st =
     (case segments_cache st (data_root, scene_id, frame_id) of
        Some segs \<Rightarrow> (Inr segs, st)
      | None \<Rightarrow>
         (case get_frame_segments_body C data_root scene_id frame_id disk st of
            (Inl e, st1) \<Rightarrow> (Inl e, st1)
          | (Inr segs, st1) \<Rightarrow>
             (Inr segs, st1\<lparr>segments_cache :=
                (segments_cache st1)((data_root, scene_id, frame_id) \<mapsto> segs)\<rparr>)))"

text \<open>\<open>str(k)\<close> of an integer key: its decimal digits, with a leading minus sign for a
  negative one.\<close>

fun str_nat :: "nat \<Rightarrow> string" where
  "str_nat n =
     (if n < 10 then [''0123456789'' ! n]
      else str_nat (n div 10) @ [''0123456789'' ! (n mod 10)])"

definition str_int :: "int \<Rightarrow> string" where
  "str_int k = (if k < 0 then CHR ''-'' # str_nat (nat (- k)) else str_nat (nat k))"

text \<open>A Python dict keeps its keys in insertion order: assigning to a key that is present
  replaces the value where it stands, assigning to a new key appends it.\<close>

fun dict_set :: "('k \<times> 'v) list \<Rightarrow> 'k \<Rightarrow> 'v \<Rightarrow> ('k \<times> 'v) list" where
  "dict_set [] k v = [(k, v)]"
| "dict_set ((k', v') # d) k v =
     (if k' = k then (k, v) # d else (k', v') # dict_set d k v)"

text \<open>The comprehension \<open>{str(k): v for k, v in grouped.items()}\<close>.\<close>

definition keys_to_strings :: "(int \<times> string list) list \<Rightarrow> (string \<times> string list) list" where
  "keys_to_strings grouped = fold (\<lambda>(k, v) d. dict_set d (str_int k) v) grouped []"

definition group_instances_for_scene ::
  "('e, 'w, 'd, 'a) data_collaborators \<Rightarrow> string \<Rightarrow> string \<Rightarrow> 'w
     \<Rightarrow> ('d, 'a) caches \<Rightarrow> ('e + (string \<times> string list) list) \<times> ('d, 'a) caches" where
  "group_instances_for_scene C data_root scene_id disk st =
     (case grouping_cache st (data_root, scene_id) of
        Some grouped \<Rightarrow> (Inr grouped, st)
      | None \<Rightarrow>
         (case get_dataset C data_root disk st of
            (Inl e, st1) \<Rightarrow> (Inl e, st1)
          | (Inr dataset, st1) \<Rightarrow>
             (case group_instances_across_frames C scene_id dataset disk of
                Inl e \<Rightarrow> (Inl e, st1)
              | Inr grouped \<Rightarrow>
                 (Inr (keys_to_strings grouped),
                  st1\<lparr>grouping_cache :=
                    (grouping_cache st1)((data_root, scene_id) \<mapsto> keys_to_strings grouped)\<rparr>))))"

text \<open>\<open>clear_cache\<close> empties every cache.\<close>

definition clear_cache :: "('d, 'a) caches \<Rightarrow> ('d, 'a) caches" where
  "clear_cache st =
     \<lparr>dataset_cache = Map.empty, point_cloud_cache = Map.empty,
      segments_cache = Map.empty, grouping_cache = Map.empty\<rparr>"

subsection \<open>The grouping helper\<close>

text \<open>Modelled from the spec: one step of the helper \<open>group_instances_across_frames\<close>
  (module \<open>src.utils.dataset_helper\<close>, whose code is not among the sources). The frame
  id is appended to the instance's list "if not already last-appended"; an instance seen
  for the first time gets a new list.\<close>

definition append_frame ::
  "string \<Rightarrow> (int \<times> string list) list \<Rightarrow> int \<Rightarrow> (int \<times> string list) list" where
  "append_frame frame_id d label =
     (case map_of d label of
        None \<Rightarrow> dict_set d label [frame_id]
      | Some frame_ids \<Rightarrow>
          if frame_ids \<noteq> [] \<and> last frame_ids = frame_id then d
          else dict_set d label (frame_ids @ [frame_id]))"

text \<open>Modelled from the spec: the treatment of one frame by the helper
  \<open>group_instances_across_frames\<close>. "Collect the set of distinct labels that are valid
  instance ids (exclude a configured set of semantic-class codes and the unlabeled
  sentinel)" and append the frame id to the list of each. The spec does not fix the order
  in which the set of distinct labels is visited: \<open>order\<close> gives, for the labels of a
  frame, the distinct labels in the order of the visit.\<close>

definition group_frame ::
  "(int list \<Rightarrow> int list) \<Rightarrow> int set \<Rightarrow> (int \<times> string list) list \<Rightarrow> string \<times> int list
     \<Rightarrow> (int \<times> string list) list" where
  "group_frame order excluded d fr =
     fold (\<lambda>label d. append_frame (fst fr) d label)
       (filter (\<lambda>label. label \<notin> excluded \<and> label \<noteq> - 1) (order (snd fr))) d"

text \<open>Modelled from the spec: the loop of the helper \<open>group_instances_across_frames\<close>
  "for each frame in scene order", starting from the empty mapping.\<close>

definition group_loaded ::
  "(int list \<Rightarrow> int list) \<Rightarrow> int set \<Rightarrow> (string \<times> int list) list \<Rightarrow> (int \<times> string list) list" where
  "group_loaded order excluded frames = fold (\<lambda>fr d. group_frame order excluded d fr) frames []"

text \<open>Modelled from the spec: the loading of the frames by the helper
  \<open>group_instances_across_frames\<close>. "If a frame fails to load, the whole grouping for a
  scene fails and propagates": the first failure in scene order is the outcome.\<close>

fun load_all :: "(string \<times> ('e + int list)) list \<Rightarrow> 'e + (string \<times> int list) list" where
  "load_all [] = Inr []"
| "load_all ((frame_id, Inl e) # frames) = Inl e"
| "load_all ((frame_id, Inr labels) # frames) =
     (case load_all frames of Inl e \<Rightarrow> Inl e | Inr loaded \<Rightarrow> Inr ((frame_id, labels) # loaded))"

text \<open>Modelled from the spec: the helper \<open>group_instances_across_frames(scene_id,
  dataset)\<close> of \<open>src.utils.dataset_helper\<close>, whose code is not among the sources, after
  section 4.1 of the specification. The enumeration of the scene's frames with their
  segment labels belongs to the dataset and is the parameter \<open>scene_segments\<close>: the frame
  ids in scene order, each with its labels or the exception raised on loading them.\<close>

definition group_instances_across_frames_spec ::
  "(int list \<Rightarrow> int list) \<Rightarrow> int set
     \<Rightarrow> (string \<Rightarrow> 'd \<Rightarrow> 'w \<Rightarrow> 'e + (string \<times> ('e + int list)) list)
     \<Rightarrow> string \<Rightarrow> 'd \<Rightarrow> 'w \<Rightarrow> 'e + (int \<times> string list) list" where
  "group_instances_across_frames_spec order excluded scene_segments scene_id ds disk =
     (case scene_segments scene_id ds disk of
        Inl e \<Rightarrow> Inl e
      | Inr frames \<Rightarrow>
         (case load_all frames of
            Inl e \<Rightarrow> Inl e
          | Inr loaded \<Rightarrow> Inr (group_loaded order excluded loaded)))"

text \<open>A visiting order of label sets: every distinct label of the frame exactly once.\<close>

definition enumerates :: "(int list \<Rightarrow> int list) \<Rightarrow> bool" where
  "enumerates order = (\<forall>labels. distinct (order labels) \<and> set (order labels) = set labels)"

text \<open>Equality of two outcomes of the grouping: the same exception, or two dicts that are
  equal in Python's sense, which have the same keys and for each key the same frame list
  in the same order, whatever the order of the keys.\<close>

fun same_grouping :: "'e + ('k \<times> 'v) list \<Rightarrow> 'e + ('k \<times> 'v) list \<Rightarrow> bool" where
  "same_grouping (Inl e) (Inl e') = (e = e')"
| "same_grouping (Inr g) (Inr g') = (map_of g = map_of g')"
| "same_grouping _ _ = False"

text \<open>The frames of a scene, in scene order, in which a label occurs as a valid instance
  id.\<close>

definition occurrences :: "int set \<Rightarrow> (string \<times> int list) list \<Rightarrow> int \<Rightarrow> string list" where
  "occurrences excluded frames k =
     map fst (filter (\<lambda>fr. k \<in> set (snd fr) \<and> k \<notin> excluded \<and> k \<noteq> - 1) frames)"

text \<open>The list of an instance after a frame id has been appended to it.\<close>

definition appended :: "string list option \<Rightarrow> string \<Rightarrow> string list" where
  "appended old frame_id =
     (case old of None \<Rightarrow> [frame_id]
      | Some fs \<Rightarrow> if fs \<noteq> [] \<and> last fs = frame_id then fs else fs @ [frame_id])"

text \<open>Reading a decimal string back, to show that \<open>str\<close> maps different integers to
  different strings.\<close>

definition digit_of :: "char \<Rightarrow> nat" where
  "digit_of c = length (takeWhile (\<lambda>d. d \<noteq> c) ''0123456789'')"

definition nat_of_str :: "string \<Rightarrow> nat" where
  "nat_of_str s = foldl (\<lambda>a c. 10 * a + digit_of c) 0 s"

definition int_of_str :: "string \<Rightarrow> int" where
  "int_of_str s = (if s \<noteq> [] \<and> hd s = CHR ''-'' then - int (nat_of_str (tl s)) else int (nat_of_str s))"

subsection \<open>A concrete dataset\<close>

text \<open>
  A small concrete dataset on which the functions can be run: the file system is the list
  of the paths that exist, every frame but \<open>f9\<close> has a point cloud of shape
  \<open>(3, 4)\<close>, and the grouping helper reports two instances.
\<close>

definition demo_data :: "(string, string list, unit, rat) data_collaborators" where
  "demo_data =
     \<lparr>PointceptDataset = (\<lambda>root disk.
        if root = ''/data'' then Inr () else Inl ''FileNotFoundError''),
      get_frame_dir = (\<lambda>d sc fr disk. Inr (''/data/training/'' @ sc @ ''/'' @ fr)),
      dataset_get_frame_point_cloud = (\<lambda>d sc fr disk.
        if fr = ''f9'' then Inl ''FileNotFoundError''
        else Inr (Array2d 4 [[0, 1, 2, 3], [0, 0, 1, 1], [5, 5, 6, 6]])),
      group_instances_across_frames = (\<lambda>sc d disk.
        Inr [(7, [''f0'', ''f2'']), (13, [''f1''])]),
      path_exists = (\<lambda>p disk. p \<in> set disk),
      np_load = (\<lambda>p disk. Inr [7, 7, 0, 13])\<rparr>"

definition empty_caches :: "(unit, rat) caches" where
  "empty_caches =
     \<lparr>dataset_cache = Map.empty, point_cloud_cache = Map.empty,
      segments_cache = Map.empty, grouping_cache = Map.empty\<rparr>"

text \<open>A scene of three frames for the grouping helper.\<close>

definition demo_scene_segments ::
  "string \<Rightarrow> unit \<Rightarrow> string list \<Rightarrow> string + (string \<times> (string + int list)) list" where
  "demo_scene_segments scene_id ds disk =
     Inr [(''f0'', Inr [7, 30, 7, 0]), (''f1'', Inr [30, - 1]), (''f2'', Inr [30, 7])]"

section \<open>app/services/patching\_service.py\<close>

subsection \<open>Strategy selection and construction of the service\<close>

datatype strategy = DefaultAccumulatorStrategy | GreedyGridAccumulatorStrategy

definition get_strategy :: "string \<Rightarrow> strategy" where
  "get_strategy strategy_name =
     (if strategy_name = ''greedy_grid'' then GreedyGridAccumulatorStrategy
      else DefaultAccumulatorStrategy)"

record 'ds patching_service =
  dataset :: 'ds
  strategy :: strategy
  strategy_name :: string

definition init :: "'ds \<Rightarrow> string \<Rightarrow> 'ds patching_service" where
  "init ds name = \<lparr>dataset = ds, strategy = get_strategy name, strategy_name = name\<rparr>"

subsection \<open>The world of a patching call\<close>

text \<open>
  Numpy arrays are objects in a store: an address is an index into \<open>heap\<close>, allocation
  appends a cell. Everything else that the collaborators own (the dataset object, the
  frame patcher object, the accumulator's internals) is the component \<open>ext\<close>.
\<close>

type_synonym addr = nat

record ('b, 'x) world =
  heap :: "'b list"
  ext :: 'x

text \<open>\<open>np.copy(a)\<close> allocates a new array holding the contents of \<open>a\<close> and leaves every
  existing array as it is. A Python reference always names a live object, so \<open>a\<close> is
  an allocated address; for an address outside the store the contents of the new cell
  are unspecified, and no property below relies on them.\<close>

definition np_copy :: "addr \<Rightarrow> ('b, 'x) world \<Rightarrow> addr \<times> ('b, 'x) world" where
  "np_copy a w = (length (heap w), w\<lparr>heap := heap w @ [heap w ! a]\<rparr>)"

text \<open>The object built by \<open>PointCloudAccumulator(step=..., grouped_instances=...,
  dataset=...)\<close>: the three constructor arguments. The constructor, whose code is
  outside the module, is taken to store its arguments and do nothing else.\<close>

record 'ds point_cloud_accumulator =
  step :: int
  grouped_instances :: "string \<rightharpoonup> string list"
  accumulator_dataset :: 'ds

text \<open>
  The collaborators of \<open>patch_frame\<close>, whose code is outside the module, are parameters:
  \<open>dataset.load_frame_patcher\<close> returns a handle \<open>'h\<close> to a frame patcher object,
  \<open>accumulator.merge\<close> returns the address of the accumulated array,
  \<open>patcher.patch_instance\<close> returns nothing, and the attributes \<open>patcher.frame\<close> and
  \<open>patcher._segments\<close> are read as the addresses of the two arrays the patcher holds.
  Each call takes the world, may change it, and returns or raises an exception \<open>'e\<close>;
  the world it leaves behind is returned in both cases.
\<close>

record ('e, 'b, 'x, 'h, 'ds) collaborators =
  load_frame_patcher ::
    "'ds \<Rightarrow> string \<Rightarrow> string \<Rightarrow> ('b, 'x) world \<Rightarrow> ('e + 'h) \<times> ('b, 'x) world"
  merge ::
    "'ds point_cloud_accumulator \<Rightarrow> string \<Rightarrow> string \<Rightarrow> strategy \<Rightarrow> ('b, 'x) world
       \<Rightarrow> ('e + addr) \<times> ('b, 'x) world"
  patch_instance ::
    "'h \<Rightarrow> string \<Rightarrow> addr \<Rightarrow> ('b, 'x) world \<Rightarrow> ('e + unit) \<times> ('b, 'x) world"
  frame :: "'h \<Rightarrow> ('b, 'x) world \<Rightarrow> addr"
  segments :: "'h \<Rightarrow> ('b, 'x) world \<Rightarrow> addr"

text \<open>
  The calls that \<open>patch_frame\<close> makes, in order, with their arguments: the log of one
  call of \<open>patch_frame\<close>. The log is not a variable of the source; it records what
  the source does so that properties of the calls can be stated.
\<close>

datatype event =
    LoadFramePatcher string string
  | ProgressCallback rat string
  | Merge int string string strategy
  | NpCopy addr addr
  | PatchInstance string addr

text \<open>
  The state threaded through one call: the world, the state \<open>'u\<close> of the caller's user
  interface, on which alone the progress callback acts, and the log. The callback is
  the caller's function; it is taken to return normally.
\<close>

record ('b, 'x, 'u) run_state =
  world :: "('b, 'x) world"
  ui :: 'u
  calls :: "event list"

text \<open>
  A callback object: the function it runs when called, and its truth value. The test
  \<open>if progress_callback:\<close> reads the truth value of the argument: \<open>None\<close> is false,
  a function is always true, and a callable object is true unless its class defines
  \<open>__bool__\<close> or \<open>__len__\<close> to say otherwise.
\<close>

datatype 'u callback = Callback (truthy: bool) (call: "rat \<Rightarrow> string \<Rightarrow> 'u \<Rightarrow> 'u")

type_synonym 'u progress_callback = "'u callback option"

definition is_true :: "'u progress_callback \<Rightarrow> bool" where
  "is_true progress_callback =
     (case progress_callback of None \<Rightarrow> False | Some cb \<Rightarrow> truthy cb)"

text \<open>An exception leaving \<open>patch_frame\<close>: one raised by a collaborator, passed on as it
  is, or the ZeroDivisionError of the division \<open>i / total\<close>.\<close>

datatype 'e failure = ZeroDivisionError | Raised 'e

text \<open>\<open>if progress_callback: progress_callback(fraction, message)\<close>.\<close>

definition report ::
  "'u progress_callback \<Rightarrow> rat \<Rightarrow> string \<Rightarrow> ('b, 'x, 'u) run_state \<Rightarrow> ('b, 'x, 'u) run_state" where
  "report progress_callback fraction message s =
     (case progress_callback of
        None \<Rightarrow> s
      | Some cb \<Rightarrow>
          if truthy cb
          then s\<lparr>ui := call cb fraction message (ui s),
                 calls := calls s @ [ProgressCallback fraction message]\<rparr>
          else s)"

text \<open>The first statement of the loop body: the callback, when it is true, is called with
  \<open>i / total\<close> and the message \<open>f"Patching instance {instance_id}..."\<close>. The true
  division raises ZeroDivisionError on a zero divisor, before the callback is called:
  that outcome is \<open>None\<close>. (\<open>tot\<close> is the variable \<open>total\<close>.)\<close>

definition report_instance ::
  "'u progress_callback \<Rightarrow> nat \<Rightarrow> nat \<Rightarrow> string \<Rightarrow> ('b, 'x, 'u) run_state
     \<Rightarrow> ('b, 'x, 'u) run_state option" where
  "report_instance progress_callback tot i instance_id s =
     (if \<not> is_true progress_callback then Some s
      else if tot = 0 then None
      else Some (report progress_callback (of_nat i / of_nat tot)
                   (''Patching instance '' @ instance_id @ ''...'') s))"

text \<open>The body of the loop \<open>for i, instance_id in enumerate(instance_ids)\<close>.\<close>

definition patch_one ::
  "('e, 'b, 'x, 'h, 'ds) collaborators \<Rightarrow> 'ds patching_service \<Rightarrow> 'ds point_cloud_accumulator
     \<Rightarrow> 'h \<Rightarrow> string \<Rightarrow> (string \<rightharpoonup> string list) \<Rightarrow> 'u progress_callback
     \<Rightarrow> nat \<Rightarrow> nat \<Rightarrow> string \<Rightarrow> ('b, 'x, 'u) run_state
     \<Rightarrow> ('e failure + unit) \<times> ('b, 'x, 'u) run_state" where
  "patch_one C self accumulator patcher scene_id grouped progress_callback tot i instance_id s =
     (case report_instance progress_callback tot i instance_id s of
        None \<Rightarrow> (Inl ZeroDivisionError, s)
      | Some s1 \<Rightarrow>
         (if grouped instance_id = None then (Inr (), s1)
          else
            (case merge C accumulator scene_id instance_id (strategy self) (world s1) of
               (Inl e, w2) \<Rightarrow>
                 (Inl (Raised e),
                  s1\<lparr>world := w2,
                     calls := calls s1 @
                       [Merge (step accumulator) scene_id instance_id (strategy self)]\<rparr>)
             | (Inr accumulated_pc, w2) \<Rightarrow>
                 (case np_copy accumulated_pc w2 of
                    (copied, w3) \<Rightarrow>
                      (case patch_instance C patcher instance_id copied w3 of
                         (r, w4) \<Rightarrow>
                           (case r of Inl e \<Rightarrow> Inl (Raised e) | Inr _ \<Rightarrow> Inr (),
                            s1\<lparr>world := w4,
                               calls := calls s1 @
                                 [Merge (step accumulator) scene_id instance_id (strategy self),
                                  NpCopy accumulated_pc copied,
                                  PatchInstance instance_id copied]\<rparr>))))))"

fun patch_loop ::
  "('e, 'b, 'x, 'h, 'ds) collaborators \<Rightarrow> 'ds patching_service \<Rightarrow> 'ds point_cloud_accumulator
     \<Rightarrow> 'h \<Rightarrow> string \<Rightarrow> (string \<rightharpoonup> string list) \<Rightarrow> 'u progress_callback
     \<Rightarrow> nat \<Rightarrow> nat \<Rightarrow> string list \<Rightarrow> ('b, 'x, 'u) run_state
     \<Rightarrow> ('e failure + unit) \<times> ('b, 'x, 'u) run_state" where
  "patch_loop C self accumulator patcher scene_id grouped progress_callback tot i [] s =
     (Inr (), s)"
| "patch_loop C self accumulator patcher scene_id grouped progress_callback tot i
     (instance_id # rest) s =
     (case patch_one C self accumulator patcher scene_id grouped progress_callback tot i
             instance_id s of
        (Inl e, s1) \<Rightarrow> (Inl e, s1)
      | (Inr _, s1) \<Rightarrow>
          patch_loop C self accumulator patcher scene_id grouped progress_callback tot
            (Suc i) rest s1)"

text \<open>
  \<open>patch_frame\<close>: the result is the pair \<open>(patcher.frame, patcher._segments)\<close>, or the
  exception that ended the call. The state at the end is returned in both cases: after
  an exception it is the state in which the exception was raised.
\<close>

definition patch_frame ::
  "('e, 'b, 'x, 'h, 'ds) collaborators \<Rightarrow> 'ds patching_service \<Rightarrow> string \<Rightarrow> string
     \<Rightarrow> string list \<Rightarrow> (string \<rightharpoonup> string list) \<Rightarrow> 'u progress_callback
     \<Rightarrow> ('b, 'x) world \<Rightarrow> 'u
     \<Rightarrow> ('e failure + addr \<times> addr) \<times> ('b, 'x, 'u) run_state" where
  "patch_frame C self scene_id frame_id instance_ids grouped progress_callback w u =
     (let accumulator =
            \<lparr>step = ACCUMULATION_STEP, grouped_instances = grouped,
             accumulator_dataset = dataset self\<rparr>
      in case load_frame_patcher C (dataset self) scene_id frame_id w of
           (Inl e, w1) \<Rightarrow>
             (Inl (Raised e),
              \<lparr>world = w1, ui = u, calls = [LoadFramePatcher scene_id frame_id]\<rparr>)
         | (Inr patcher, w1) \<Rightarrow>
             (case patch_loop C self accumulator patcher scene_id grouped progress_callback
                     (length instance_ids) 0 instance_ids
                     \<lparr>world = w1, ui = u, calls = [LoadFramePatcher scene_id frame_id]\<rparr> of
                (Inl e, s2) \<Rightarrow> (Inl e, s2)
              | (Inr _, s2) \<Rightarrow>
                  (let s3 = report progress_callback 1 ''Patching complete!'' s2
                   in (Inr (frame C patcher (world s3), segments C patcher (world s3)), s3))))"

subsection \<open>Reading the log\<close>

fun is_progress :: "event \<Rightarrow> bool" where
  "is_progress (ProgressCallback f m) = True"
| "is_progress _ = False"

definition collaborator_calls :: "event list \<Rightarrow> event list" where
  "collaborator_calls tr = filter (\<lambda>ev. \<not> is_progress ev) tr"

fun progress_of :: "event list \<Rightarrow> (rat \<times> string) list" where
  "progress_of [] = []"
| "progress_of (ProgressCallback f m # tr) = (f, m) # progress_of tr"
| "progress_of (_ # tr) = progress_of tr"

fun merged_instances :: "event list \<Rightarrow> string list" where
  "merged_instances [] = []"
| "merged_instances (Merge st sc i sg # tr) = i # merged_instances tr"
| "merged_instances (_ # tr) = merged_instances tr"

fun merge_steps :: "event list \<Rightarrow> int list" where
  "merge_steps [] = []"
| "merge_steps (Merge st sc i sg # tr) = st # merge_steps tr"
| "merge_steps (_ # tr) = merge_steps tr"

fun patched_instances :: "event list \<Rightarrow> string list" where
  "patched_instances [] = []"
| "patched_instances (PatchInstance i a # tr) = i # patched_instances tr"
| "patched_instances (_ # tr) = patched_instances tr"

fun patched_buffers :: "event list \<Rightarrow> addr list" where
  "patched_buffers [] = []"
| "patched_buffers (PatchInstance i a # tr) = a # patched_buffers tr"
| "patched_buffers (_ # tr) = patched_buffers tr"

fun copies :: "event list \<Rightarrow> (addr \<times> addr) list" where
  "copies [] = []"
| "copies (NpCopy a c # tr) = (a, c) # copies tr"
| "copies (_ # tr) = copies tr"


subsection \<open>Comparing runs\<close>

text \<open>What a call does apart from progress reports: its outcome, the world it leaves and
  the collaborator calls it made.\<close>

definition effects ::
  "('f + 'r) \<times> ('b, 'x, 'u) run_state \<Rightarrow> ('f + 'r) \<times> ('b, 'x) world \<times> event list" where
  "effects r = (fst r, world (snd r), collaborator_calls (calls (snd r)))"

text \<open>Two states with the same world and the same collaborator calls so far.\<close>

definition same_effects :: "('b, 'x, 'u) run_state \<Rightarrow> ('b, 'x, 'v) run_state \<Rightarrow> bool" where
  "same_effects s s' =
     (world s = world s' \<and> collaborator_calls (calls s) = collaborator_calls (calls s'))"



subsection \<open>Test doubles for the collaborators\<close>

text \<open>
  A small concrete set of collaborators on which the model can be run. Arrays are lists of
  integers. Loading frame \<open>missing\<close>, merging instance \<open>13\<close> and patching instance \<open>99\<close>
  raise; otherwise loading allocates the frame and segment arrays, merging allocates an
  array that records the accumulator's stride, and patching appends the given array to
  the frame array.
\<close>

definition demo :: "(string, int list, unit, nat, unit) collaborators" where
  "demo =
     \<lparr>load_frame_patcher = (\<lambda>ds sc fr w.
        if fr = ''missing'' then (Inl ''FileNotFoundError'', w)
        else (Inr (length (heap w)), w\<lparr>heap := heap w @ [[10, 11, 12], [7, 7, 0]]\<rparr>)),
      merge = (\<lambda>acc sc i sg w.
        if i = ''13'' then (Inl ''KeyError'', w)
        else (Inr (length (heap w)), w\<lparr>heap := heap w @ [[20, 21, step acc]]\<rparr>)),
      patch_instance = (\<lambda>h i a w.
        if i = ''99'' then (Inl ''ValueError'', w)
        else (Inr (), w\<lparr>heap := (heap w)[h := heap w ! h @ heap w ! a]\<rparr>)),
      frame = (\<lambda>h w. h),
      segments = (\<lambda>h w. Suc h)\<rparr>"

definition demo_service :: "unit patching_service" where
  "demo_service = init () ''default''"

definition demo_grouped :: "string \<rightharpoonup> string list" where
  "demo_grouped = [''7'' \<mapsto> [''f0'', ''f2''], ''13'' \<mapsto> [''f1''], ''99'' \<mapsto> [''f0'']]"

definition demo_world :: "(int list, unit) world" where
  "demo_world = \<lparr>heap = [], ext = ()\<rparr>"

section \<open>Properties of height colouring\<close>














section \<open>Properties of the data service\<close>

lemma get_dataset_idem:
  "get_dataset C r disk st = (out, st') \<Longrightarrow> get_dataset C r disk st' = (out, st')"
  by (auto simp: get_dataset_def split: option.splits sum.splits)

lemma map_of_dict_set: "map_of (dict_set d k v) = (map_of d)(k \<mapsto> v)"
  by (induction d) auto

lemma keys_dict_set: "fst ` set (dict_set d k v) = insert k (fst ` set d)"
proof (induction d)
  case Nil
  then show ?case by simp
next
  case (Cons p d)
  obtain k' v' where p: "p = (k', v')" by (cases p)
  show ?case
  proof (cases "k' = k")
    case True
    then show ?thesis by (simp add: p)
  next
    case False
    then show ?thesis using Cons by (simp add: p insert_commute)
  qed
qed

lemma distinct_dict_set: "distinct (map fst d) \<Longrightarrow> distinct (map fst (dict_set d k v))"
proof (induction d)
  case Nil
  then show ?case by simp
next
  case (Cons p d)
  obtain k' v' where p: "p = (k', v')" by (cases p)
  from Cons show ?case unfolding p using keys_dict_set [of d k v] by auto
qed

lemma map_of_append_frame:
  "map_of (append_frame fid d l) = (map_of d)(l \<mapsto> appended (map_of d l) fid)"
  by (auto simp: append_frame_def appended_def map_of_dict_set split: option.splits)

lemma distinct_append_frame:
  "distinct (map fst d) \<Longrightarrow> distinct (map fst (append_frame fid d l))"
  by (auto simp: append_frame_def distinct_dict_set split: option.splits)

lemma fold_append_frame:
  assumes "distinct vs"
  shows "map_of (fold (\<lambda>l d. append_frame fid d l) vs d) k
           = (if k \<in> set vs then Some (appended (map_of d k) fid) else map_of d k)"
  using assms
proof (induction vs arbitrary: d)
  case Nil
  then show ?case by simp
next
  case (Cons v vs)
  then have IH: "map_of (fold (\<lambda>l d. append_frame fid d l) vs (append_frame fid d v)) k
      = (if k \<in> set vs then Some (appended (map_of (append_frame fid d v) k) fid)
         else map_of (append_frame fid d v) k)"
    by simp
  from Cons.prems have "v \<notin> set vs" by simp
  then show ?case using IH by (auto simp: map_of_append_frame)
qed

lemma distinct_fold_append_frame:
  "distinct (map fst d) \<Longrightarrow> distinct (map fst (fold (\<lambda>l d. append_frame fid d l) vs d))"
  by (induction vs arbitrary: d) (simp_all add: distinct_append_frame)

lemma map_of_group_frame:
  assumes "enumerates order"
  shows "map_of (group_frame order excluded d (fid, ls)) k
     = (if k \<in> set ls \<and> k \<notin> excluded \<and> k \<noteq> - 1 then Some (appended (map_of d k) fid)
        else map_of d k)"
proof -
  let ?vs = "filter (\<lambda>label. label \<notin> excluded \<and> label \<noteq> - 1) (order ls)"
  from assms have "distinct (order ls)" and s: "set (order ls) = set ls"
    by (simp_all add: enumerates_def)
  then have "distinct ?vs" by simp
  from fold_append_frame [OF this, of fid d k] s show ?thesis
    by (simp add: group_frame_def)
qed

lemma distinct_group_frame:
  "distinct (map fst d) \<Longrightarrow> distinct (map fst (group_frame order excluded d fr))"
  by (simp add: group_frame_def distinct_fold_append_frame)

lemma remdups_adj_snoc:
  "remdups_adj (xs @ [x]) = (if xs \<noteq> [] \<and> last xs = x then remdups_adj xs else remdups_adj xs @ [x])"
proof (cases xs rule: rev_cases)
  case Nil
  then show ?thesis by simp
next
  case (snoc ys y)
  then show ?thesis by (simp add: remdups_adj_append_two)
qed

lemma map_of_group_loaded:
  assumes "enumerates order"
  shows "map_of (group_loaded order excluded frames) k
     = (if occurrences excluded frames k = [] then None
        else Some (remdups_adj (occurrences excluded frames k)))"
proof (induction frames rule: rev_induct)
  case Nil
  then show ?case by (simp add: group_loaded_def occurrences_def)
next
  case (snoc fr frames)
  obtain fid ls where fr: "fr = (fid, ls)" by (cases fr)
  let ?occ = "occurrences excluded frames k"
  have g: "group_loaded order excluded (frames @ [fr])
      = group_frame order excluded (group_loaded order excluded frames) (fid, ls)"
    by (simp add: group_loaded_def fr)
  show ?case
  proof (cases "k \<in> set ls \<and> k \<notin> excluded \<and> k \<noteq> - 1")
    case False
    then have o: "occurrences excluded (frames @ [fr]) k = ?occ"
      by (auto simp: occurrences_def fr)
    from False have "map_of (group_frame order excluded (group_loaded order excluded frames) (fid, ls)) k
        = map_of (group_loaded order excluded frames) k"
      by (auto simp: map_of_group_frame [OF assms])
    with snoc show ?thesis unfolding g o by simp
  next
    case True
    then have occ: "occurrences excluded (frames @ [fr]) k = ?occ @ [fid]"
      by (simp add: occurrences_def fr)
    have "appended (map_of (group_loaded order excluded frames) k) fid
        = remdups_adj (?occ @ [fid])"
    proof (cases "?occ = []")
      case True
      with snoc show ?thesis by (simp add: appended_def)
    next
      case False
      with snoc have "map_of (group_loaded order excluded frames) k = Some (remdups_adj ?occ)"
        by simp
      moreover have "remdups_adj ?occ \<noteq> []" using False by simp
      moreover have "last (remdups_adj ?occ) = last ?occ" by (rule last_remdups_adj)
      ultimately show ?thesis using False by (simp add: appended_def remdups_adj_snoc)
    qed
    moreover from True
    have "map_of (group_frame order excluded (group_loaded order excluded frames) (fid, ls)) k
        = Some (appended (map_of (group_loaded order excluded frames) k) fid)"
      by (simp add: map_of_group_frame [OF assms])
    ultimately show ?thesis unfolding g occ by simp
  qed
qed

lemma distinct_group_loaded: "distinct (map fst (group_loaded order excluded frames))"
proof (induction frames rule: rev_induct)
  case Nil
  then show ?case by (simp add: group_loaded_def)
next
  case (snoc fr frames)
  have "group_loaded order excluded (frames @ [fr])
      = group_frame order excluded (group_loaded order excluded frames) fr"
    by (simp add: group_loaded_def)
  with snoc show ?case by (simp add: distinct_group_frame)
qed

lemma group_loaded_order_irrelevant:
  assumes "enumerates order1" and "enumerates order2"
  shows "map_of (group_loaded order1 excluded frames) = map_of (group_loaded order2 excluded frames)"
  by (rule ext) (simp add: map_of_group_loaded [OF assms(1)] map_of_group_loaded [OF assms(2)])

lemma digit_cases: "d < 10 \<Longrightarrow> d = 0 \<or> d = 1 \<or> d = 2 \<or> d = 3 \<or> d = 4 \<or> d = 5 \<or> d = 6
     \<or> d = 7 \<or> d = 8 \<or> d = (9 :: nat)"
  by arith

lemma digit_of_digit: "d < 10 \<Longrightarrow> digit_of (''0123456789'' ! d) = d"
  using digit_cases [of d] by (auto simp: digit_of_def)

lemma digit_not_minus: "d < 10 \<Longrightarrow> ''0123456789'' ! d \<noteq> CHR ''-''"
  using digit_cases [of d] by auto

lemma nat_of_str_snoc: "nat_of_str (s @ [c]) = 10 * nat_of_str s + digit_of c"
  by (simp add: nat_of_str_def)

lemma nat_of_str_str_nat: "nat_of_str (str_nat n) = n"
proof (induction n rule: str_nat.induct)
  case (1 n)
  show ?case
  proof (cases "n < 10")
    case True
    then have "str_nat n = [''0123456789'' ! n]" by (subst str_nat.simps) simp
    with True show ?thesis by (simp add: nat_of_str_def digit_of_digit del: str_nat.simps)
  next
    case False
    then have s: "str_nat n = str_nat (n div 10) @ [''0123456789'' ! (n mod 10)]"
      by (subst str_nat.simps) simp
    have "n mod 10 < 10" by simp
    with "1.IH" [OF False] show ?thesis
      unfolding s nat_of_str_snoc by (simp add: digit_of_digit del: str_nat.simps)
  qed
qed

lemma str_nat_head: "str_nat n \<noteq> [] \<and> hd (str_nat n) \<noteq> CHR ''-''"
proof (induction n rule: str_nat.induct)
  case (1 n)
  show ?case
  proof (cases "n < 10")
    case True
    then have "str_nat n = [''0123456789'' ! n]" by (subst str_nat.simps) simp
    with True show ?thesis by (simp add: digit_not_minus del: str_nat.simps)
  next
    case False
    then have s: "str_nat n = str_nat (n div 10) @ [''0123456789'' ! (n mod 10)]"
      by (subst str_nat.simps) simp
    from "1.IH" [OF False] show ?thesis unfolding s by (simp del: str_nat.simps)
  qed
qed

lemma int_of_str_str_int: "int_of_str (str_int k) = k"
proof (cases "k < 0")
  case True
  then show ?thesis
    by (simp add: str_int_def int_of_str_def nat_of_str_str_nat del: str_nat.simps)
next
  case False
  with str_nat_head [of "nat k"] show ?thesis
    by (simp add: str_int_def int_of_str_def nat_of_str_str_nat del: str_nat.simps)
qed

lemma str_int_inj: "str_int a = str_int b \<Longrightarrow> a = b"
  by (metis int_of_str_str_int)

lemma map_of_fold_dict_set:
  "map_of (fold (\<lambda>(k, v) d. dict_set d (str_int k) v) g d0) s
     = (case map_of (rev g) (int_of_str s) of
          Some v \<Rightarrow> if str_int (int_of_str s) = s then Some v else map_of d0 s
        | None \<Rightarrow> map_of d0 s)"
proof (induction g arbitrary: d0)
  case Nil
  then show ?case by simp
next
  case (Cons p g)
  obtain k v where p: "p = (k, v)" by (cases p)
  show ?case
  proof (cases "map_of (rev g) (int_of_str s)")
    case None
    then show ?thesis unfolding p
      using Cons [of "dict_set d0 (str_int k) v"]
      by (auto simp: map_of_dict_set int_of_str_str_int map_add_def split: option.splits)
  next
    case (Some v')
    then show ?thesis unfolding p
      using Cons [of "dict_set d0 (str_int k) v"]
      by (auto simp: map_of_dict_set int_of_str_str_int map_add_def split: option.splits)
  qed
qed

lemma map_of_rev_distinct: "distinct (map fst g) \<Longrightarrow> map_of (rev g) = map_of g"
  by (rule ext) (metis distinct_rev map_of_eq_Some_iff not_Some_eq rev_map set_rev)

lemma map_of_keys_to_strings:
  assumes "distinct (map fst g)"
  shows "map_of (keys_to_strings g) s
     = (case map_of g (int_of_str s) of
          Some v \<Rightarrow> if str_int (int_of_str s) = s then Some v else None
        | None \<Rightarrow> None)"
  unfolding keys_to_strings_def map_of_fold_dict_set map_of_rev_distinct [OF assms]
  by (auto split: option.splits)

lemma keys_to_strings_same:
  assumes "distinct (map fst g1)" and "distinct (map fst g2)" and "map_of g1 = map_of g2"
  shows "map_of (keys_to_strings g1) = map_of (keys_to_strings g2)"
  by (rule ext) (simp add: map_of_keys_to_strings assms)

lemma same_grouping_refl: "same_grouping r r"
  by (cases r) simp_all

lemma load_all_cases: "(\<exists>e. load_all frames = Inl e) \<or> (\<exists>loaded. load_all frames = Inr loaded)"
  by (cases "load_all frames") auto

lemma helper_same:
  assumes "enumerates order1" and "enumerates order2"
  shows "same_grouping
     (map_sum id keys_to_strings
        (group_instances_across_frames_spec order1 excluded scene_segments sc d disk))
     (map_sum id keys_to_strings
        (group_instances_across_frames_spec order2 excluded scene_segments sc d disk))"
proof (cases "scene_segments sc d disk")
  case (Inl e)
  then show ?thesis by (simp add: group_instances_across_frames_spec_def)
next
  case (Inr frames)
  show ?thesis
  proof (cases "load_all frames")
    case (Inl e)
    with Inr show ?thesis by (simp add: group_instances_across_frames_spec_def)
  next
    case inner: (Inr loaded)
    have "map_of (keys_to_strings (group_loaded order1 excluded loaded))
        = map_of (keys_to_strings (group_loaded order2 excluded loaded))"
      by (rule keys_to_strings_same)
         (rule distinct_group_loaded, rule distinct_group_loaded,
          rule group_loaded_order_irrelevant [OF assms])
    with Inr inner show ?thesis by (simp add: group_instances_across_frames_spec_def)
  qed
qed

lemma get_dataset_helper:
  "get_dataset (C\<lparr>group_instances_across_frames := h\<rparr>) r disk st = get_dataset C r disk st"
  by (auto simp: get_dataset_def split: option.splits sum.splits)

lemma group_cases:
  obtains (hit) g where "grouping_cache st (r, sc) = Some g"
      "group_instances_for_scene C r sc disk st = (Inr g, st)"
  | (no_dataset) e st1 where "grouping_cache st (r, sc) = None"
      "get_dataset C r disk st = (Inl e, st1)"
      "group_instances_for_scene C r sc disk st = (Inl e, st1)"
  | (helper_raises) d st1 e where "grouping_cache st (r, sc) = None"
      "get_dataset C r disk st = (Inr d, st1)"
      "group_instances_across_frames C sc d disk = Inl e"
      "group_instances_for_scene C r sc disk st = (Inl e, st1)"
  | (grouped) d st1 g where "grouping_cache st (r, sc) = None"
      "get_dataset C r disk st = (Inr d, st1)"
      "group_instances_across_frames C sc d disk = Inr g"
      "group_instances_for_scene C r sc disk st
         = (Inr (keys_to_strings g),
            st1\<lparr>grouping_cache := (grouping_cache st1)((r, sc) \<mapsto> keys_to_strings g)\<rparr>)"
proof (cases "grouping_cache st (r, sc)")
  case (Some g)
  then show thesis using hit by (simp add: group_instances_for_scene_def)
next
  case None
  obtain o1 st1 where d: "get_dataset C r disk st = (o1, st1)" by (cases "get_dataset C r disk st")
  show thesis
  proof (cases o1)
    case (Inl e)
    with None d show thesis using no_dataset [of e st1]
      by (simp add: group_instances_for_scene_def)
  next
    case (Inr ds)
    show thesis
    proof (cases "group_instances_across_frames C sc ds disk")
      case (Inl e)
      with None d Inr show thesis using helper_raises [of ds st1 e]
        by (simp add: group_instances_for_scene_def)
    next
      case inner: (Inr g)
      with None d Inr show thesis using grouped [of ds st1 g]
        by (simp add: group_instances_for_scene_def)
    qed
  qed
qed

lemma get_dataset_grouping_cache:
  "get_dataset C r disk st = (out, st1) \<Longrightarrow> grouping_cache st1 = grouping_cache st"
  by (auto simp: get_dataset_def split: option.splits sum.splits)

lemma group_independent:
  assumes e1: "enumerates order1" and e2: "enumerates order2"
  shows "same_grouping
     (fst (group_instances_for_scene
        (C\<lparr>group_instances_across_frames :=
             group_instances_across_frames_spec order1 excluded scene_segments\<rparr>)
        r sc disk st))
     (fst (group_instances_for_scene
        (C\<lparr>group_instances_across_frames :=
             group_instances_across_frames_spec order2 excluded scene_segments\<rparr>)
        r sc disk st))"
proof (cases "grouping_cache st (r, sc)")
  case (Some g)
  then show ?thesis by (simp add: group_instances_for_scene_def)
next
  case None
  obtain o1 st1 where d: "get_dataset C r disk st = (o1, st1)" by (cases "get_dataset C r disk st")
  show ?thesis
  proof (cases o1)
    case (Inl e)
    with None d show ?thesis by (simp add: group_instances_for_scene_def get_dataset_helper)
  next
    case (Inr ds)
    from helper_same [OF e1 e2, of excluded scene_segments sc ds disk] None d Inr
    show ?thesis
      by (auto simp: group_instances_for_scene_def get_dataset_helper split: sum.splits)
  qed
qed

lemma group_repeated:
  assumes e1: "enumerates order1" and e2: "enumerates order2"
  shows "same_grouping
     (fst (group_instances_for_scene
        (C\<lparr>group_instances_across_frames :=
             group_instances_across_frames_spec order1 excluded scene_segments\<rparr>)
        r sc disk st))
     (fst (group_instances_for_scene
        (C\<lparr>group_instances_across_frames :=
             group_instances_across_frames_spec order2 excluded scene_segments\<rparr>)
        r sc disk
        (snd (group_instances_for_scene
           (C\<lparr>group_instances_across_frames :=
                group_instances_across_frames_spec order1 excluded scene_segments\<rparr>)
           r sc disk st))))"
proof -
  let ?C1 = "C\<lparr>group_instances_across_frames :=
             group_instances_across_frames_spec order1 excluded scene_segments\<rparr>"
  let ?C2 = "C\<lparr>group_instances_across_frames :=
             group_instances_across_frames_spec order2 excluded scene_segments\<rparr>"
  show ?thesis
  proof (cases rule: group_cases [of st r sc ?C1 disk])
    case (hit g)
    then show ?thesis by (simp add: group_instances_for_scene_def)
  next
    case (no_dataset e st1)
    from no_dataset(2) have d: "get_dataset C r disk st = (Inl e, st1)"
      by (simp add: get_dataset_helper)
    then have "get_dataset C r disk st1 = (Inl e, st1)" by (rule get_dataset_idem)
    moreover from d no_dataset(1) have "grouping_cache st1 (r, sc) = None"
      by (simp add: get_dataset_grouping_cache)
    ultimately have "group_instances_for_scene ?C2 r sc disk st1 = (Inl e, st1)"
      by (simp add: group_instances_for_scene_def get_dataset_helper)
    with no_dataset(3) show ?thesis by simp
  next
    case (helper_raises d st1 e)
    from helper_raises(2) have ds: "get_dataset C r disk st = (Inr d, st1)"
      by (simp add: get_dataset_helper)
    then have ds': "get_dataset C r disk st1 = (Inr d, st1)" by (rule get_dataset_idem)
    from ds helper_raises(1) have miss: "grouping_cache st1 (r, sc) = None"
      by (simp add: get_dataset_grouping_cache)
    from helper_same [OF e1 e2, of excluded scene_segments sc d disk] helper_raises(3)
    have "group_instances_across_frames_spec order2 excluded scene_segments sc d disk = Inl e"
      by (cases "group_instances_across_frames_spec order2 excluded scene_segments sc d disk")
         simp_all
    with ds' miss have "group_instances_for_scene ?C2 r sc disk st1 = (Inl e, st1)"
      by (simp add: group_instances_for_scene_def get_dataset_helper)
    with helper_raises(4) show ?thesis by simp
  next
    case (grouped d st1 g)
    then show ?thesis by (simp add: group_instances_for_scene_def)
  qed
qed

lemma group_hit:
  "grouping_cache st (r, sc) = Some g \<Longrightarrow> group_instances_for_scene C r sc disk st = (Inr g, st)"
  by (simp add: group_instances_for_scene_def)

lemma group_returns_cached:
  assumes "group_instances_for_scene C r sc disk st = (Inr g, st')"
  shows "grouping_cache st' (r, sc) = Some g"
  using assms
  by (auto simp: group_instances_for_scene_def split: option.splits sum.splits prod.splits)

text \<open>
  Claim C6. For a fixed scene the grouping is deterministic across repeated calls. The
  helper that computes it is modelled from the specification, and two calls may visit the
  distinct labels of a frame in different orders. Two calls of
  \<open>group_instances_for_scene\<close> with the same \<open>data_root\<close> and \<open>scene_id\<close> on the
  same scene data, started from the same cache, have the same outcome: the same exception,
  or equal mappings with every instance's frame list in the same order. The same holds
  for a second call made after the first, on the cache the first left. Once a call has
  returned a mapping, every later call returns that very mapping from the cache.
\<close>

theorem group_instances_deterministic:
  assumes "enumerates order1" and "enumerates order2"
  shows "same_grouping
     (fst (group_instances_for_scene
        (C\<lparr>group_instances_across_frames :=
             group_instances_across_frames_spec order1 excluded scene_segments\<rparr>)
        data_root scene_id disk st))
     (fst (group_instances_for_scene
        (C\<lparr>group_instances_across_frames :=
             group_instances_across_frames_spec order2 excluded scene_segments\<rparr>)
        data_root scene_id disk st))
   \<and> same_grouping
     (fst (group_instances_for_scene
        (C\<lparr>group_instances_across_frames :=
             group_instances_across_frames_spec order1 excluded scene_segments\<rparr>)
        data_root scene_id disk st))
     (fst (group_instances_for_scene
        (C\<lparr>group_instances_across_frames :=
             group_instances_across_frames_spec order2 excluded scene_segments\<rparr>)
        data_root scene_id disk
        (snd (group_instances_for_scene
           (C\<lparr>group_instances_across_frames :=
                group_instances_across_frames_spec order1 excluded scene_segments\<rparr>)
           data_root scene_id disk st))))
   \<and> (group_instances_for_scene
        (C\<lparr>group_instances_across_frames :=
             group_instances_across_frames_spec order1 excluded scene_segments\<rparr>)
        data_root scene_id disk st = (Inr grouped, st1)
      \<longrightarrow> group_instances_for_scene
        (C\<lparr>group_instances_across_frames :=
             group_instances_across_frames_spec order2 excluded scene_segments\<rparr>)
        data_root scene_id disk' st1 = (Inr grouped, st1))"
proof (intro conjI impI)
  show "same_grouping
     (fst (group_instances_for_scene
        (C\<lparr>group_instances_across_frames :=
             group_instances_across_frames_spec order1 excluded scene_segments\<rparr>)
        data_root scene_id disk st))
     (fst (group_instances_for_scene
        (C\<lparr>group_instances_across_frames :=
             group_instances_across_frames_spec order2 excluded scene_segments\<rparr>)
        data_root scene_id disk st))"
    using assms by (rule group_independent)
next
  show "same_grouping
     (fst (group_instances_for_scene
        (C\<lparr>group_instances_across_frames :=
             group_instances_across_frames_spec order1 excluded scene_segments\<rparr>)
        data_root scene_id disk st))
     (fst (group_instances_for_scene
        (C\<lparr>group_instances_across_frames :=
             group_instances_across_frames_spec order2 excluded scene_segments\<rparr>)
        data_root scene_id disk
        (snd (group_instances_for_scene
           (C\<lparr>group_instances_across_frames :=
                group_instances_across_frames_spec order1 excluded scene_segments\<rparr>)
           data_root scene_id disk st))))"
    using assms by (rule group_repeated)
next
  assume "group_instances_for_scene
        (C\<lparr>group_instances_across_frames :=
             group_instances_across_frames_spec order1 excluded scene_segments\<rparr>)
        data_root scene_id disk st = (Inr grouped, st1)"
  then have "grouping_cache st1 (data_root, scene_id) = Some grouped"
    by (rule group_returns_cached)
  then show "group_instances_for_scene
        (C\<lparr>group_instances_across_frames :=
             group_instances_across_frames_spec order2 excluded scene_segments\<rparr>)
        data_root scene_id disk' st1 = (Inr grouped, st1)"
    by (rule group_hit)
qed

lemma enumerates_remdups: "enumerates remdups"
  by (simp add: enumerates_def)

lemma enumerates_rev_remdups: "enumerates (\<lambda>labels. rev (remdups labels))"
  by (simp add: enumerates_def)

lemmas grouping_simps = group_instances_for_scene_def get_dataset_def demo_data_def
  empty_caches_def keys_to_strings_def str_int_def group_instances_across_frames_spec_def
  demo_scene_segments_def group_loaded_def group_frame_def append_frame_def
  EXCLUDED_SEGMENT_CLASSES_def

theorem group_instances_deterministic_witness:
  "enumerates remdups \<and> enumerates (\<lambda>labels. rev (remdups labels))
   \<and> fst (group_instances_for_scene
        (demo_data\<lparr>group_instances_across_frames :=
           group_instances_across_frames_spec remdups EXCLUDED_SEGMENT_CLASSES
             demo_scene_segments\<rparr>)
        ''/data'' ''s1'' [] empty_caches)
       = Inr [(''30'', [''f0'', ''f1'', ''f2'']), (''7'', [''f0'', ''f2''])]
   \<and> fst (group_instances_for_scene
        (demo_data\<lparr>group_instances_across_frames :=
           group_instances_across_frames_spec (\<lambda>labels. rev (remdups labels))
             EXCLUDED_SEGMENT_CLASSES demo_scene_segments\<rparr>)
        ''/data'' ''s1'' [] empty_caches)
       = Inr [(''7'', [''f0'', ''f2'']), (''30'', [''f0'', ''f1'', ''f2''])]
   \<and> same_grouping
        (fst (group_instances_for_scene
           (demo_data\<lparr>group_instances_across_frames :=
              group_instances_across_frames_spec remdups EXCLUDED_SEGMENT_CLASSES
                demo_scene_segments\<rparr>)
           ''/data'' ''s1'' [] empty_caches))
        (fst (group_instances_for_scene
           (demo_data\<lparr>group_instances_across_frames :=
              group_instances_across_frames_spec (\<lambda>labels. rev (remdups labels))
                EXCLUDED_SEGMENT_CLASSES demo_scene_segments\<rparr>)
           ''/data'' ''s1'' [] empty_caches))"
proof -
  have r1: "fst (group_instances_for_scene
        (demo_data\<lparr>group_instances_across_frames :=
           group_instances_across_frames_spec remdups EXCLUDED_SEGMENT_CLASSES
             demo_scene_segments\<rparr>)
        ''/data'' ''s1'' [] empty_caches)
       = Inr [(''30'', [''f0'', ''f1'', ''f2'']), (''7'', [''f0'', ''f2''])]"
    by (simp add: grouping_simps)
  have r2: "fst (group_instances_for_scene
        (demo_data\<lparr>group_instances_across_frames :=
           group_instances_across_frames_spec (\<lambda>labels. rev (remdups labels))
             EXCLUDED_SEGMENT_CLASSES demo_scene_segments\<rparr>)
        ''/data'' ''s1'' [] empty_caches)
       = Inr [(''7'', [''f0'', ''f2'']), (''30'', [''f0'', ''f1'', ''f2''])]"
    by (simp add: grouping_simps)
  from group_instances_deterministic [OF enumerates_remdups enumerates_rev_remdups,
      where C = demo_data and excluded = EXCLUDED_SEGMENT_CLASSES
        and scene_segments = demo_scene_segments and data_root = "''/data''"
        and scene_id = "''s1''" and disk = "[]" and st = empty_caches]
  have "same_grouping
        (fst (group_instances_for_scene
           (demo_data\<lparr>group_instances_across_frames :=
              group_instances_across_frames_spec remdups EXCLUDED_SEGMENT_CLASSES
                demo_scene_segments\<rparr>)
           ''/data'' ''s1'' [] empty_caches))
        (fst (group_instances_for_scene
           (demo_data\<lparr>group_instances_across_frames :=
              group_instances_across_frames_spec (\<lambda>labels. rev (remdups labels))
                EXCLUDED_SEGMENT_CLASSES demo_scene_segments\<rparr>)
           ''/data'' ''s1'' [] empty_caches))"
    by blast
  with enumerates_remdups enumerates_rev_remdups r1 r2 show ?thesis by blast
qed

text \<open>
  Claim C9, as amended. A call of \<open>get_frame_segments\<close> that finds an entry for its
  arguments in the cache returns that entry, whatever the disk holds. A call that finds
  none, with the dataset available and naming the frame's directory, does this: if
  \<open>segment.npy\<close> does not exist there and the frame's point cloud loads, it returns
  an array whose length is the point count \<open>pc.shape[1]\<close> and whose entries are all
  \<open>-1\<close>; if the point cloud does not load, that exception leaves the call; and if
  the file exists, the outcome is that of \<open>np.load\<close> on it.
\<close>

theorem get_frame_segments_file:
  "(segments_cache st (data_root, scene_id, frame_id) = Some cached \<longrightarrow>
      get_frame_segments C data_root scene_id frame_id disk st = (Inr cached, st))
   \<and> (segments_cache st (data_root, scene_id, frame_id) = None
       \<and> get_dataset C data_root disk st = (Inr d, st1)
       \<and> get_frame_dir C d scene_id frame_id disk = Inr frame_dir \<longrightarrow>
      (\<not> path_exists C (path_join frame_dir ''segment.npy'') disk \<longrightarrow>
         (get_frame_point_cloud C data_root scene_id frame_id disk st1 = (Inr pc, st2) \<longrightarrow>
            (\<exists>segs. fst (get_frame_segments C data_root scene_id frame_id disk st) = Inr segs
               \<and> length segs = ncols pc \<and> (\<forall>x \<in> set segs. x = - 1)))
         \<and> (get_frame_point_cloud C data_root scene_id frame_id disk st1 = (Inl e, st2) \<longrightarrow>
            fst (get_frame_segments C data_root scene_id frame_id disk st) = Inl e))
      \<and> (path_exists C (path_join frame_dir ''segment.npy'') disk \<longrightarrow>
           fst (get_frame_segments C data_root scene_id frame_id disk st)
             = np_load C (path_join frame_dir ''segment.npy'') disk))"
  by (auto simp: get_frame_segments_def get_frame_segments_body_def Let_def split: sum.splits)

theorem get_frame_segments_file_witness:
  "segments_cache empty_caches (''/data'', ''s1'', ''f0'') = None
   \<and> \<not> path_exists demo_data (path_join ''/data/training/s1/f0'' ''segment.npy'') []
   \<and> (\<exists>segs. fst (get_frame_segments demo_data ''/data'' ''s1'' ''f0'' [] empty_caches) = Inr segs
         \<and> length segs = 4 \<and> (\<forall>x \<in> set segs. x = - 1))
   \<and> fst (get_frame_segments demo_data ''/data'' ''s1'' ''f0''
            [''/data/training/s1/f0/segment.npy''] empty_caches) = Inr [7, 7, 0, 13]
   \<and> get_frame_segments demo_data ''/data'' ''s1'' ''f0'' []
        (empty_caches\<lparr>segments_cache := [(''/data'', ''s1'', ''f0'') \<mapsto> [1, 2]]\<rparr>)
       = (Inr [1, 2], empty_caches\<lparr>segments_cache := [(''/data'', ''s1'', ''f0'') \<mapsto> [1, 2]]\<rparr>)"
proof -
  let ?st1 = "empty_caches\<lparr>dataset_cache := [''/data'' \<mapsto> ()]\<rparr>"
  let ?pc = "Array2d 4 [[0, 1, 2, 3], [0, 0, 1, 1], [5, 5, 6, 6 :: rat]]"
  let ?file = "''/data/training/s1/f0/segment.npy''"
  let ?st2 = "?st1\<lparr>point_cloud_cache := [(''/data'', ''s1'', ''f0'') \<mapsto> ?pc]\<rparr>"
  let ?hit = "empty_caches\<lparr>segments_cache := [(''/data'', ''s1'', ''f0'') \<mapsto> [1, 2]]\<rparr>"
  have miss: "segments_cache empty_caches (''/data'', ''s1'', ''f0'') = None"
    by (simp add: empty_caches_def)
  have ds: "get_dataset demo_data ''/data'' disk empty_caches = (Inr (), ?st1)" for disk
    by (simp add: get_dataset_def demo_data_def empty_caches_def)
  have dir: "get_frame_dir demo_data () ''s1'' ''f0'' disk = Inr ''/data/training/s1/f0''" for disk
    by (simp add: demo_data_def)
  have nofile: "\<not> path_exists demo_data (path_join ''/data/training/s1/f0'' ''segment.npy'') []"
    by (simp add: demo_data_def)
  have present: "path_exists demo_data (path_join ''/data/training/s1/f0'' ''segment.npy'') [?file]"
    by (simp add: demo_data_def path_join_def)
  have pc: "get_frame_point_cloud demo_data ''/data'' ''s1'' ''f0'' [] ?st1 = (Inr ?pc, ?st2)"
    by (simp add: get_frame_point_cloud_def get_dataset_def demo_data_def empty_caches_def)
  have load: "np_load demo_data (path_join ''/data/training/s1/f0'' ''segment.npy'') [?file]
      = Inr [7, 7, 0, 13]"
    by (simp add: demo_data_def)
  have cached: "segments_cache ?hit (''/data'', ''s1'', ''f0'') = Some [1, 2]" by simp
  from get_frame_segments_file [where st = empty_caches and data_root = "''/data''"
      and scene_id = "''s1''" and frame_id = "''f0''" and C = demo_data and disk = "[]"
      and d = "()" and ?st1.0 = ?st1 and frame_dir = "''/data/training/s1/f0''" and pc = ?pc
      and ?st2.0 = ?st2]
    miss ds dir nofile pc
  have a: "\<exists>segs. fst (get_frame_segments demo_data ''/data'' ''s1'' ''f0'' [] empty_caches) = Inr segs
         \<and> length segs = 4 \<and> (\<forall>x \<in> set segs. x = - 1)"
    by simp
  from get_frame_segments_file [where st = empty_caches and data_root = "''/data''"
      and scene_id = "''s1''" and frame_id = "''f0''" and C = demo_data and disk = "[?file]"
      and d = "()" and ?st1.0 = ?st1 and frame_dir = "''/data/training/s1/f0''"]
    miss ds dir present load
  have b: "fst (get_frame_segments demo_data ''/data'' ''s1'' ''f0'' [?file] empty_caches)
      = Inr [7, 7, 0, 13]"
    by simp
  from get_frame_segments_file [where st = ?hit and data_root = "''/data''"
      and scene_id = "''s1''" and frame_id = "''f0''" and C = demo_data and disk = "[]"
      and cached = "[1, 2]"] cached
  have c: "get_frame_segments demo_data ''/data'' ''s1'' ''f0'' [] ?hit = (Inr [1, 2], ?hit)"
    by blast
  from miss nofile a b c show ?thesis by blast
qed

text \<open>
  Claim C9 as stated fails in two ways. After a call made while \<open>segment.npy\<close> existed,
  a call for the same frame made when the file no longer exists returns the cached
  contents, not an array of \<open>-1\<close>. And for a frame without the file whose point cloud
  does not load, the call raises.
\<close>

theorem get_frame_segments_file_counterexample:
  "\<not> path_exists demo_data (path_join ''/data/training/s1/f0'' ''segment.npy'') []
   \<and> fst (get_frame_segments demo_data ''/data'' ''s1'' ''f0'' []
            (snd (get_frame_segments demo_data ''/data'' ''s1'' ''f0''
                    [''/data/training/s1/f0/segment.npy''] empty_caches)))
       = Inr [7, 7, 0, 13]
   \<and> \<not> path_exists demo_data (path_join ''/data/training/s1/f9'' ''segment.npy'') []
   \<and> fst (get_frame_segments demo_data ''/data'' ''s1'' ''f9'' [] empty_caches)
       = Inl ''FileNotFoundError''"
  by (simp add: get_frame_segments_def get_frame_segments_body_def get_frame_point_cloud_def
      get_dataset_def demo_data_def empty_caches_def path_join_def)

section \<open>Properties of strategy selection\<close>

text \<open>
  Claim C5. For every strategy name, \<open>_get_strategy\<close> returns the GreedyGrid strategy
  exactly when the name is \<open>greedy_grid\<close> and the Default strategy for every other
  string, the name \<open>default\<close> and unrecognised names included. The function has no
  error result: it never raises.
\<close>

theorem get_strategy_selects:
  "(get_strategy s = GreedyGridAccumulatorStrategy) = (s = ''greedy_grid'')
   \<and> (get_strategy s = DefaultAccumulatorStrategy) = (s \<noteq> ''greedy_grid'')
   \<and> get_strategy ''default'' = DefaultAccumulatorStrategy
   \<and> get_strategy ''no_such_strategy'' = DefaultAccumulatorStrategy
   \<and> get_strategy [] = DefaultAccumulatorStrategy"
  by (simp add: get_strategy_def)

section \<open>Properties of the patching service\<close>

lemma collaborator_calls_append [simp]:
  "collaborator_calls (xs @ ys) = collaborator_calls xs @ collaborator_calls ys"
  by (simp add: collaborator_calls_def)

lemma progress_of_append [simp]: "progress_of (xs @ ys) = progress_of xs @ progress_of ys"
  by (induction xs rule: progress_of.induct) simp_all

lemma merged_instances_append [simp]:
  "merged_instances (xs @ ys) = merged_instances xs @ merged_instances ys"
  by (induction xs rule: merged_instances.induct) simp_all

lemma merge_steps_append [simp]: "merge_steps (xs @ ys) = merge_steps xs @ merge_steps ys"
  by (induction xs rule: merge_steps.induct) simp_all

lemma patched_instances_append [simp]:
  "patched_instances (xs @ ys) = patched_instances xs @ patched_instances ys"
  by (induction xs rule: patched_instances.induct) simp_all

lemma patched_buffers_append [simp]:
  "patched_buffers (xs @ ys) = patched_buffers xs @ patched_buffers ys"
  by (induction xs rule: patched_buffers.induct) simp_all

lemma copies_append [simp]: "copies (xs @ ys) = copies xs @ copies ys"
  by (induction xs rule: copies.induct) simp_all

text \<open>The report of the loop body, case by case.\<close>

lemma report_instance_None [simp]: "report_instance None tot i x s = Some s"
  by (simp add: report_instance_def is_true_def)

lemma report_instance_Some:
  "0 < tot \<Longrightarrow> truthy cb \<Longrightarrow> report_instance (Some cb) tot i x s =
     Some (s\<lparr>ui := call cb (of_nat i / of_nat tot) (''Patching instance '' @ x @ ''...'') (ui s),
        calls := calls s @ [ProgressCallback (of_nat i / of_nat tot) (''Patching instance '' @ x @ ''...'')]\<rparr>)"
  by (simp add: report_instance_def report_def is_true_def)

lemma report_instance_world:
  "report_instance cb tot i x s = Some s1 \<Longrightarrow>
     world s1 = world s \<and> collaborator_calls (calls s1) = collaborator_calls (calls s)
     \<and> merged_instances (calls s1) = merged_instances (calls s)
     \<and> patched_instances (calls s1) = patched_instances (calls s)
     \<and> merge_steps (calls s1) = merge_steps (calls s)
     \<and> copies (calls s1) = copies (calls s)
     \<and> patched_buffers (calls s1) = patched_buffers (calls s)"
  by (auto simp: report_instance_def report_def collaborator_calls_def is_true_def
        split: if_splits option.splits)

lemma report_instance_ok:
  "\<not> is_true cb \<or> 0 < tot \<Longrightarrow> \<exists>s1. report_instance cb tot i x s = Some s1"
  by (auto simp: report_instance_def)

text \<open>The rest of the loop body after the report, as a function of the state.\<close>

lemma patch_one_absent:
  "grouped x = None \<Longrightarrow> report_instance cb tot i x s = Some s1 \<Longrightarrow>
     patch_one C self acc h sc grouped cb tot i x s = (Inr (), s1)"
  by (simp add: patch_one_def)

lemma patch_one_merge_raises:
  assumes "grouped x \<noteq> None" and "report_instance cb tot i x s = Some s1"
    and "merge C acc sc x (strategy self) (world s1) = (Inl e, w2)"
  shows "patch_one C self acc h sc grouped cb tot i x s =
     (Inl (Raised e), s1\<lparr>world := w2,
        calls := calls s1 @ [Merge (step acc) sc x (strategy self)]\<rparr>)"
  using assms by (simp add: patch_one_def)

lemma patch_one_patches:
  assumes "grouped x \<noteq> None" and "report_instance cb tot i x s = Some s1"
    and "merge C acc sc x (strategy self) (world s1) = (Inr a, w2)"
    and "patch_instance C h x (length (heap w2)) (w2\<lparr>heap := heap w2 @ [heap w2 ! a]\<rparr>) = (r, w4)"
  shows "patch_one C self acc h sc grouped cb tot i x s =
     (case r of Inl e \<Rightarrow> Inl (Raised e) | Inr _ \<Rightarrow> Inr (),
      s1\<lparr>world := w4,
         calls := calls s1 @ [Merge (step acc) sc x (strategy self),
           NpCopy a (length (heap w2)), PatchInstance x (length (heap w2))]\<rparr>)"
  using assms by (auto simp: patch_one_def np_copy_def)

text \<open>Every run of the loop body is one of the four cases.\<close>

lemma patch_one_cases:
  assumes run: "patch_one C self acc h sc grouped cb tot i x s = (out, t)"
  obtains
    (zero) "is_true cb" "tot = 0" "out = Inl ZeroDivisionError" "t = s"
  | (absent) s1 where "report_instance cb tot i x s = Some s1" "grouped x = None"
      "out = Inr ()" "t = s1"
  | (merge_raises) s1 e w2 where "report_instance cb tot i x s = Some s1"
      "grouped x \<noteq> None" "merge C acc sc x (strategy self) (world s1) = (Inl e, w2)"
      "out = Inl (Raised e)"
      "t = s1\<lparr>world := w2, calls := calls s1 @ [Merge (step acc) sc x (strategy self)]\<rparr>"
  | (patched) s1 a w2 r w4 where "report_instance cb tot i x s = Some s1"
      "grouped x \<noteq> None" "merge C acc sc x (strategy self) (world s1) = (Inr a, w2)"
      "patch_instance C h x (length (heap w2)) (w2\<lparr>heap := heap w2 @ [heap w2 ! a]\<rparr>) = (r, w4)"
      "out = (case r of Inl e \<Rightarrow> Inl (Raised e) | Inr _ \<Rightarrow> Inr ())"
      "t = s1\<lparr>world := w4,
         calls := calls s1 @ [Merge (step acc) sc x (strategy self),
           NpCopy a (length (heap w2)), PatchInstance x (length (heap w2))]\<rparr>"
proof (cases "report_instance cb tot i x s")
  case None
  then have "is_true cb" "tot = 0" by (auto simp: report_instance_def split: if_splits)
  moreover from None run have "out = Inl ZeroDivisionError" "t = s" by (auto simp: patch_one_def)
  ultimately show thesis using zero by simp
next
  case (Some s1)
  then have rep: "report_instance cb tot i x s = Some s1" .
    show thesis
    proof (cases "grouped x = None")
      case True
      with run rep have "out = Inr ()" "t = s1" by (auto simp: patch_one_def)
      with rep True show thesis using absent by blast
    next
      case False
      obtain mo w2 where m: "merge C acc sc x (strategy self) (world s1) = (mo, w2)"
        by (cases "merge C acc sc x (strategy self) (world s1)")
      show thesis
      proof (cases mo)
        case (Inl e)
        with m run rep False show thesis
          using merge_raises [of s1 e w2] by (simp add: patch_one_merge_raises)
      next
        case (Inr a)
        obtain r w4 where p: "patch_instance C h x (length (heap w2))
            (w2\<lparr>heap := heap w2 @ [heap w2 ! a]\<rparr>) = (r, w4)"
          by (cases "patch_instance C h x (length (heap w2)) (w2\<lparr>heap := heap w2 @ [heap w2 ! a]\<rparr>)")
        from m Inr have m': "merge C acc sc x (strategy self) (world s1) = (Inr a, w2)" by simp
        have "patch_one C self acc h sc grouped cb tot i x s =
            (case r of Inl e \<Rightarrow> Inl (Raised e) | Inr _ \<Rightarrow> Inr (),
             s1\<lparr>world := w4,
               calls := calls s1 @ [Merge (step acc) sc x (strategy self),
                 NpCopy a (length (heap w2)), PatchInstance x (length (heap w2))]\<rparr>)"
          using False rep m' p by (rule patch_one_patches)
        with run show thesis using patched [of s1 a w2 r w4] rep False m' p by simp
    qed
  qed
qed

lemma patch_loop_invariant:
  assumes "P s"
    and step: "\<And>i x s out t. P s \<Longrightarrow> x \<in> set ids \<Longrightarrow>
       patch_one C self acc h sc grouped cb tot i x s = (out, t) \<Longrightarrow> P t"
  shows "P (snd (patch_loop C self acc h sc grouped cb tot i ids s))"
  using assms
proof (induction ids arbitrary: i s)
  case Nil
  then show ?case by simp
next
  case (Cons x xs)
  obtain out t where one: "patch_one C self acc h sc grouped cb tot i x s = (out, t)"
    by (cases "patch_one C self acc h sc grouped cb tot i x s")
  have Pt: "P t" using Cons.prems(2) [OF Cons.prems(1) _ one] by simp
  show ?case
  proof (cases out)
    case (Inl e)
    with one Pt show ?thesis by simp
  next
    case (Inr u)
    have "P (snd (patch_loop C self acc h sc grouped cb tot (Suc i) xs t))"
      by (rule Cons.IH [OF Pt]) (rule Cons.prems(2), auto)
    with one Inr show ?thesis by simp
  qed
qed

lemma patch_loop_append:
  "patch_loop C self acc h sc grouped cb tot i (xs @ ys) s =
     (case patch_loop C self acc h sc grouped cb tot i xs s of
        (Inl e, s1) \<Rightarrow> (Inl e, s1)
      | (Inr _, s1) \<Rightarrow> patch_loop C self acc h sc grouped cb tot (i + length xs) ys s1)"
proof (induction xs arbitrary: i s)
  case Nil
  then show ?case by simp
next
  case (Cons x xs)
  show ?case
  proof (cases "patch_one C self acc h sc grouped cb tot i x s")
    case (Pair out t)
    then show ?thesis using Cons.IH [of "Suc i" t]
      by (cases out) (auto split: prod.splits sum.splits)
  qed
qed

text \<open>The division never raises in a run of the loop whose counter stays below \<open>tot\<close>.\<close>

lemma patch_loop_no_zero_division:
  "\<not> is_true cb \<or> ids = [] \<or> 0 < tot \<Longrightarrow>
     fst (patch_loop C self acc h sc grouped cb tot i ids s) \<noteq> Inl ZeroDivisionError"
proof (induction ids arbitrary: i s)
  case Nil
  then show ?case by simp
next
  case (Cons x xs)
  then have ok: "\<not> is_true cb \<or> 0 < tot" by simp
  obtain out t where one: "patch_one C self acc h sc grouped cb tot i x s = (out, t)"
    by (cases "patch_one C self acc h sc grouped cb tot i x s")
  from one ok have nz: "out \<noteq> Inl ZeroDivisionError"
    by (cases rule: patch_one_cases) (auto split: sum.splits)
  show ?case
  proof (cases out)
    case (Inl e)
    with one nz show ?thesis by simp
  next
    case (Inr u)
    with one Cons.IH [of "Suc i" t] ok show ?thesis by auto
  qed
qed

subsection \<open>The stride of the accumulator\<close>

lemma patch_one_merge_steps:
  assumes "patch_one C self acc h sc grouped cb tot i x s = (out, t)"
    and "set (merge_steps (calls s)) \<subseteq> {step acc}"
  shows "set (merge_steps (calls t)) \<subseteq> {step acc}"
  using assms(1)
proof (cases rule: patch_one_cases)
  case zero
  with assms(2) show ?thesis by simp
next
  case (absent s1)
  with assms(2) report_instance_world [of cb tot i x s s1] show ?thesis by simp
next
  case (merge_raises s1 e w2)
  with assms(2) report_instance_world [of cb tot i x s s1] show ?thesis by simp
next
  case (patched s1 a w2 r w4)
  with assms(2) report_instance_world [of cb tot i x s s1] show ?thesis by simp
qed

lemma report_reads:
  "world (report cb f m s) = world s
   \<and> collaborator_calls (calls (report cb f m s)) = collaborator_calls (calls s)
   \<and> merged_instances (calls (report cb f m s)) = merged_instances (calls s)
   \<and> patched_instances (calls (report cb f m s)) = patched_instances (calls s)
   \<and> merge_steps (calls (report cb f m s)) = merge_steps (calls s)
   \<and> copies (calls (report cb f m s)) = copies (calls s)
   \<and> patched_buffers (calls (report cb f m s)) = patched_buffers (calls s)"
  by (simp add: report_def collaborator_calls_def split: option.splits)

text \<open>The shape of a run of patch_frame.\<close>

lemma patch_frame_load_raises:
  "load_frame_patcher C (dataset self) sc fr w = (Inl e, w1) \<Longrightarrow>
     patch_frame C self sc fr ids grouped cb w u =
       (Inl (Raised e), \<lparr>world = w1, ui = u, calls = [LoadFramePatcher sc fr]\<rparr>)"
  by (simp add: patch_frame_def)

lemma patch_frame_loaded:
  "load_frame_patcher C (dataset self) sc fr w = (Inr h, w1) \<Longrightarrow>
     patch_frame C self sc fr ids grouped cb w u =
       (case patch_loop C self
               \<lparr>step = ACCUMULATION_STEP, grouped_instances = grouped,
                accumulator_dataset = dataset self\<rparr>
               h sc grouped cb (length ids) 0 ids
               \<lparr>world = w1, ui = u, calls = [LoadFramePatcher sc fr]\<rparr> of
          (Inl e, s2) \<Rightarrow> (Inl e, s2)
        | (Inr _, s2) \<Rightarrow>
            (Inr (frame C h (world s2), segments C h (world s2)),
             report cb 1 ''Patching complete!'' s2))"
  by (simp add: patch_frame_def Let_def report_reads split: prod.splits sum.splits)

text \<open>
  Claim C4, as amended. The stride is not chosen by the caller of the service: neither the
  constructor of \<open>PatchingService\<close> nor \<open>patch_frame\<close> takes one. Whatever the
  service, the arguments and the collaborators, every accumulator that \<open>patch_frame\<close>
  hands to \<open>merge\<close> was constructed with the module constant \<open>ACCUMULATION_STEP\<close> of
  \<open>app/config.py\<close>, which is the positive integer 3.
\<close>

theorem patch_frame_stride:
  "set (merge_steps (calls (snd (patch_frame C self scene_id frame_id instance_ids grouped
       progress_callback w u)))) \<subseteq> {ACCUMULATION_STEP}
   \<and> ACCUMULATION_STEP = 3"
proof -
  let ?acc = "\<lparr>step = ACCUMULATION_STEP, grouped_instances = grouped,
                accumulator_dataset = dataset self\<rparr>"
  obtain lo w1 where load: "load_frame_patcher C (dataset self) scene_id frame_id w = (lo, w1)"
    by (cases "load_frame_patcher C (dataset self) scene_id frame_id w")
  have "set (merge_steps (calls (snd (patch_frame C self scene_id frame_id instance_ids grouped
       progress_callback w u)))) \<subseteq> {ACCUMULATION_STEP}"
  proof (cases lo)
    case (Inl e)
    with load show ?thesis by (simp add: patch_frame_load_raises)
  next
    case (Inr h)
    let ?s0 = "\<lparr>world = w1, ui = u, calls = [LoadFramePatcher scene_id frame_id]\<rparr>"
    let ?r = "patch_loop C self ?acc h scene_id grouped progress_callback
                (length instance_ids) 0 instance_ids ?s0"
    have "set (merge_steps (calls (snd ?r))) \<subseteq> {step ?acc}"
      by (rule patch_loop_invariant [where P = "\<lambda>s. set (merge_steps (calls s)) \<subseteq> {step ?acc}"])
         (simp, erule (1) patch_one_merge_steps [rotated])
    then have *: "set (merge_steps (calls (snd ?r))) \<subseteq> {ACCUMULATION_STEP}" by simp
    from load Inr have "patch_frame C self scene_id frame_id instance_ids grouped progress_callback w u
       = (case ?r of (Inl e, s2) \<Rightarrow> (Inl e, s2)
        | (Inr _, s2) \<Rightarrow>
            (Inr (frame C h (world s2), segments C h (world s2)),
             report progress_callback 1 ''Patching complete!'' s2))"
      by (simp add: patch_frame_loaded)
    with * show ?thesis by (cases ?r) (auto simp: report_reads split: sum.splits)
  qed
  then show ?thesis by (simp add: ACCUMULATION_STEP_def)
qed

subsection \<open>Absent instances and the callback\<close>


lemma patch_one_None_absent:
  "grouped x = None \<Longrightarrow> patch_one C self acc h sc grouped None tot i x s = (Inr (), s)"
  by (simp add: patch_one_def)


lemma patch_one_callback_irrelevant:
  assumes R: "same_effects s s'" and ok: "\<not> is_true cb \<or> 0 < tot"
    and one: "patch_one C self acc h sc grouped cb tot i x s = (out, t)"
  shows "\<exists>t'. patch_one C self acc h sc grouped None tot' i' x s' = (out, t') \<and> same_effects t t'"
  using one
proof (cases rule: patch_one_cases)
  case zero
  with ok show ?thesis by simp
next
  case (absent s1)
  with R report_instance_world [of cb tot i x s s1] show ?thesis
    by (simp add: patch_one_None_absent same_effects_def)
next
  case (merge_raises s1 e w2)
  from R report_instance_world [of cb tot i x s s1] merge_raises(1)
  have w: "world s1 = world s'" and c: "collaborator_calls (calls s1) = collaborator_calls (calls s')"
    by (simp_all add: same_effects_def)
  have rep: "report_instance None tot' i' x s' = Some s'" by simp
  from merge_raises(3) w have m: "merge C acc sc x (strategy self) (world s') = (Inl e, w2)" by simp
  have "patch_one C self acc h sc grouped None tot' i' x s' =
     (Inl (Raised e), s'\<lparr>world := w2,
        calls := calls s' @ [Merge (step acc) sc x (strategy self)]\<rparr>)"
    using merge_raises(2) rep m by (rule patch_one_merge_raises)
  with merge_raises c show ?thesis by (simp add: same_effects_def)
next
  case (patched s1 a w2 r w4)
  from R report_instance_world [of cb tot i x s s1] patched(1)
  have w: "world s1 = world s'" and c: "collaborator_calls (calls s1) = collaborator_calls (calls s')"
    by (simp_all add: same_effects_def)
  have rep: "report_instance None tot' i' x s' = Some s'" by simp
  from patched(3) w have m: "merge C acc sc x (strategy self) (world s') = (Inr a, w2)" by simp
  have "patch_one C self acc h sc grouped None tot' i' x s' =
     (case r of Inl e \<Rightarrow> Inl (Raised e) | Inr _ \<Rightarrow> Inr (),
      s'\<lparr>world := w4,
         calls := calls s' @ [Merge (step acc) sc x (strategy self),
           NpCopy a (length (heap w2)), PatchInstance x (length (heap w2))]\<rparr>)"
    using patched(2) rep m patched(4) by (rule patch_one_patches)
  with patched c show ?thesis by (simp add: same_effects_def)
qed

lemma patch_loop_callback_irrelevant:
  assumes "same_effects s s'" and "\<not> is_true cb \<or> 0 < tot"
  shows "fst (patch_loop C self acc h sc grouped cb tot i ids s)
           = fst (patch_loop C self acc h sc grouped None tot' i' ids s')
     \<and> same_effects (snd (patch_loop C self acc h sc grouped cb tot i ids s))
          (snd (patch_loop C self acc h sc grouped None tot' i' ids s'))"
  using assms
proof (induction ids arbitrary: i i' s s')
  case Nil
  then show ?case by simp
next
  case (Cons x xs)
  obtain out t where one: "patch_one C self acc h sc grouped cb tot i x s = (out, t)"
    by (cases "patch_one C self acc h sc grouped cb tot i x s")
  from patch_one_callback_irrelevant [OF Cons.prems(1) Cons.prems(2) one, of tot' i']
  obtain t' where one': "patch_one C self acc h sc grouped None tot' i' x s' = (out, t')"
    and R: "same_effects t t'" by blast
  show ?case
  proof (cases out)
    case (Inl e)
    with one one' R show ?thesis by simp
  next
    case (Inr v)
    with one one' Cons.IH [OF R Cons.prems(2), of "Suc i" "Suc i'"] show ?thesis by simp
  qed
qed

lemma patch_frame_callback_irrelevant:
  "effects (patch_frame C self sc fr ids grouped cb w u)
     = effects (patch_frame C self sc fr ids grouped None w u')"
proof -
  let ?acc = "\<lparr>step = ACCUMULATION_STEP, grouped_instances = grouped,
                accumulator_dataset = dataset self\<rparr>"
  obtain lo w1 where load: "load_frame_patcher C (dataset self) sc fr w = (lo, w1)"
    by (cases "load_frame_patcher C (dataset self) sc fr w")
  show ?thesis
  proof (cases lo)
    case (Inl e)
    with load show ?thesis
      by (simp add: patch_frame_load_raises effects_def collaborator_calls_def)
  next
    case (Inr h)
    let ?s0 = "\<lparr>world = w1, ui = u, calls = [LoadFramePatcher sc fr]\<rparr>"
    let ?s0' = "\<lparr>world = w1, ui = u', calls = [LoadFramePatcher sc fr]\<rparr>"
    let ?r = "patch_loop C self ?acc h sc grouped cb (length ids) 0 ids ?s0"
    let ?r' = "patch_loop C self ?acc h sc grouped None (length ids) 0 ids ?s0'"
    have R0: "same_effects ?s0 ?s0'" by (simp add: same_effects_def)
    have eq: "fst ?r = fst ?r' \<and> same_effects (snd ?r) (snd ?r')"
    proof (cases "ids = []")
      case True
      then show ?thesis using R0 by simp
    next
      case False
      then have "\<not> is_true cb \<or> 0 < length ids" by simp
      with R0 show ?thesis by (rule patch_loop_callback_irrelevant)
    qed
    from load Inr have pf: "patch_frame C self sc fr ids grouped cb w u
       = (case ?r of (Inl e, s2) \<Rightarrow> (Inl e, s2)
        | (Inr _, s2) \<Rightarrow>
            (Inr (frame C h (world s2), segments C h (world s2)),
             report cb 1 ''Patching complete!'' s2))"
      by (simp add: patch_frame_loaded)
    from load Inr have pf': "patch_frame C self sc fr ids grouped None w u'
       = (case ?r' of (Inl e, s2) \<Rightarrow> (Inl e, s2)
        | (Inr _, s2) \<Rightarrow>
            (Inr (frame C h (world s2), segments C h (world s2)),
             report None 1 ''Patching complete!'' s2))"
      by (simp add: patch_frame_loaded)
    obtain o1 s2 where r: "?r = (o1, s2)" by (cases ?r)
    obtain o1' s2' where r': "?r' = (o1', s2')" by (cases ?r')
    from eq r r' have o: "o1' = o1" and R: "same_effects s2 s2'" by simp_all
    show ?thesis unfolding pf pf' r r' o using R
      by (cases o1) (simp_all add: effects_def same_effects_def report_reads)
  qed
qed



subsection \<open>Which instances are merged and patched\<close>




lemma patch_frame_cases:
  obtains (load_raises) e w1 where
      "load_frame_patcher C (dataset self) sc fr w = (Inl e, w1)"
      "patch_frame C self sc fr ids grouped cb w u =
         (Inl (Raised e), \<lparr>world = w1, ui = u, calls = [LoadFramePatcher sc fr]\<rparr>)"
  | (loop_raises) h w1 e s2 where
      "load_frame_patcher C (dataset self) sc fr w = (Inr h, w1)"
      "patch_loop C self
          \<lparr>step = ACCUMULATION_STEP, grouped_instances = grouped,
           accumulator_dataset = dataset self\<rparr>
          h sc grouped cb (length ids) 0 ids
          \<lparr>world = w1, ui = u, calls = [LoadFramePatcher sc fr]\<rparr> = (Inl e, s2)"
      "patch_frame C self sc fr ids grouped cb w u = (Inl e, s2)"
  | (returns) h w1 s2 where
      "load_frame_patcher C (dataset self) sc fr w = (Inr h, w1)"
      "patch_loop C self
          \<lparr>step = ACCUMULATION_STEP, grouped_instances = grouped,
           accumulator_dataset = dataset self\<rparr>
          h sc grouped cb (length ids) 0 ids
          \<lparr>world = w1, ui = u, calls = [LoadFramePatcher sc fr]\<rparr> = (Inr (), s2)"
      "patch_frame C self sc fr ids grouped cb w u =
         (Inr (frame C h (world s2), segments C h (world s2)),
          report cb 1 ''Patching complete!'' s2)"
proof -
  obtain lo w1 where load: "load_frame_patcher C (dataset self) sc fr w = (lo, w1)"
    by (cases "load_frame_patcher C (dataset self) sc fr w")
  show thesis
  proof (cases lo)
    case (Inl e)
    with load show thesis using load_raises [of e w1] by (simp add: patch_frame_load_raises)
  next
    case (Inr h)
    with load have load': "load_frame_patcher C (dataset self) sc fr w = (Inr h, w1)" by simp
    let ?r = "patch_loop C self
          \<lparr>step = ACCUMULATION_STEP, grouped_instances = grouped,
           accumulator_dataset = dataset self\<rparr>
          h sc grouped cb (length ids) 0 ids
          \<lparr>world = w1, ui = u, calls = [LoadFramePatcher sc fr]\<rparr>"
    obtain o1 s2 where r: "?r = (o1, s2)" by (cases ?r)
    show thesis
    proof (cases o1)
      case (Inl e)
      with r load' show thesis using loop_raises [of h w1 e s2]
        by (simp add: patch_frame_loaded)
    next
      case (Inr v)
      with r load' show thesis using returns [of h w1 s2]
        by (simp add: patch_frame_loaded)
    qed
  qed
qed


subsection \<open>No instances\<close>

text \<open>
  Claim C2. With an empty \<open>instance_ids\<close>, and the frame patcher loaded,
  \<open>patch_frame\<close> returns the two arrays of the patcher as loaded: the world, and so the
  content of every array, is the one \<open>load_frame_patcher\<close> left, and no other
  collaborator call is made. This holds with and without a progress callback.
\<close>

theorem patch_frame_no_instances:
  assumes "load_frame_patcher C (dataset self) scene_id frame_id w = (Inr patcher, w1)"
  shows "fst (patch_frame C self scene_id frame_id [] grouped progress_callback w u)
           = Inr (frame C patcher w1, segments C patcher w1)
     \<and> world (snd (patch_frame C self scene_id frame_id [] grouped progress_callback w u)) = w1
     \<and> collaborator_calls
          (calls (snd (patch_frame C self scene_id frame_id [] grouped progress_callback w u)))
         = [LoadFramePatcher scene_id frame_id]"
  using assms by (simp add: patch_frame_loaded report_reads) (simp add: collaborator_calls_def)

subsection \<open>Progress reports\<close>

lemma report_instance_progress:
  assumes "0 < tot" and "truthy c" and "report_instance (Some c) tot i x s = Some s1"
  shows "progress_of (calls s1) = progress_of (calls s)
           @ [(of_nat i / of_nat tot, ''Patching instance '' @ x @ ''...'')]"
  using assms by (auto simp: report_instance_Some)

lemma patch_one_progress:
  assumes "0 < tot" and "truthy c"
    and "patch_one C self acc h sc grouped (Some c) tot i x s = (out, t)"
  shows "progress_of (calls t) = progress_of (calls s)
           @ [(of_nat i / of_nat tot, ''Patching instance '' @ x @ ''...'')]"
  using assms(3)
proof (cases rule: patch_one_cases)
  case zero
  with assms(1) show ?thesis by simp
next
  case (absent s1)
  with report_instance_progress [OF assms(1,2), of i x s s1] show ?thesis by simp
next
  case (merge_raises s1 e w2)
  with report_instance_progress [OF assms(1,2), of i x s s1] show ?thesis by simp
next
  case (patched s1 a w2 r w4)
  with report_instance_progress [OF assms(1,2), of i x s s1] show ?thesis by simp
qed

lemma patch_loop_progress:
  assumes "0 < tot" and "truthy c"
  shows "\<exists>k \<le> length ids.
     progress_of (calls (snd (patch_loop C self acc h sc grouped (Some c) tot i ids s)))
       = progress_of (calls s)
         @ map (\<lambda>(j, x). (of_nat j / of_nat tot, ''Patching instance '' @ x @ ''...''))
             (take k (enumerate i ids))
     \<and> (fst (patch_loop C self acc h sc grouped (Some c) tot i ids s) = Inr () \<longrightarrow> k = length ids)"
proof (induction ids arbitrary: i s)
  case Nil
  then show ?case by simp
next
  case (Cons x xs)
  let ?F = "\<lambda>(j, x). (of_nat j / of_nat tot :: rat, ''Patching instance '' @ x @ ''...'')"
  obtain out t where one: "patch_one C self acc h sc grouped (Some c) tot i x s = (out, t)"
    by (cases "patch_one C self acc h sc grouped (Some c) tot i x s")
  from patch_one_progress [OF assms one]
  have p: "progress_of (calls t) = progress_of (calls s) @ [?F (i, x)]" by simp
  show ?case
  proof (cases out)
    case (Inl e)
    with one p show ?thesis by (intro exI [of _ 1]) simp
  next
    case (Inr v)
    from Cons.IH [of "Suc i" t] obtain k where k: "k \<le> length xs"
      "progress_of (calls (snd (patch_loop C self acc h sc grouped (Some c) tot (Suc i) xs t)))
         = progress_of (calls t) @ map ?F (take k (enumerate (Suc i) xs))"
      "fst (patch_loop C self acc h sc grouped (Some c) tot (Suc i) xs t) = Inr () \<longrightarrow> k = length xs"
      by blast
    with one Inr p show ?thesis by (intro exI [of _ "Suc k"]) simp
  qed
qed

lemma loop_fractions:
  assumes "(j, x) \<in> set (enumerate 0 ids)"
  shows "0 \<le> (of_nat j / of_nat (length ids) :: rat) \<and> (of_nat j / of_nat (length ids) :: rat) < 1"
proof -
  from assms have "j < length ids" by (simp add: in_set_enumerate_eq)
  then have "(of_nat j :: rat) < of_nat (length ids)" and "(0 :: rat) < of_nat (length ids)"
    by auto
  then show ?thesis by (simp add: divide_less_eq)
qed

text \<open>The state of the caller's interface is the result of the invocations in the log, and
  of nothing else.\<close>

lemma report_invocations:
  assumes "ui s = fold (\<lambda>(f, m). call c f m) (progress_of (calls s)) u"
  shows "ui (report (Some c) f m s)
           = fold (\<lambda>(f, m). call c f m) (progress_of (calls (report (Some c) f m s))) u"
  using assms by (simp add: report_def)

lemma report_instance_invocations:
  assumes "ui s = fold (\<lambda>(f, m). call c f m) (progress_of (calls s)) u"
    and "report_instance (Some c) tot i x s = Some s1"
  shows "ui s1 = fold (\<lambda>(f, m). call c f m) (progress_of (calls s1)) u"
proof (cases "is_true (Some c) \<and> tot \<noteq> 0")
  case True
  with assms(2) have "s1 = report (Some c) (of_nat i / of_nat tot)
      (''Patching instance '' @ x @ ''...'') s"
    by (simp add: report_instance_def)
  with report_invocations [OF assms(1)] show ?thesis by simp
next
  case False
  with assms(2) have "s1 = s" by (auto simp: report_instance_def split: if_splits)
  with assms(1) show ?thesis by simp
qed

lemma patch_one_invocations:
  assumes inv: "ui s = fold (\<lambda>(f, m). call c f m) (progress_of (calls s)) u"
    and one: "patch_one C self acc h sc grouped (Some c) tot i x s = (out, t)"
  shows "ui t = fold (\<lambda>(f, m). call c f m) (progress_of (calls t)) u"
  using one
proof (cases rule: patch_one_cases)
  case zero
  with inv show ?thesis by simp
next
  case (absent s1)
  with report_instance_invocations [OF inv, of tot i x s1] show ?thesis by simp
next
  case (merge_raises s1 e w2)
  with report_instance_invocations [OF inv, of tot i x s1] show ?thesis by simp
next
  case (patched s1 a w2 r w4)
  with report_instance_invocations [OF inv, of tot i x s1] show ?thesis by simp
qed

lemma patch_frame_invocations:
  "ui (snd (patch_frame C self sc fr ids grouped (Some c) w u))
     = fold (\<lambda>(f, m). call c f m)
         (progress_of (calls (snd (patch_frame C self sc fr ids grouped (Some c) w u)))) u"
proof -
  let ?acc = "\<lparr>step = ACCUMULATION_STEP, grouped_instances = grouped,
                accumulator_dataset = dataset self\<rparr>"
  have loop: "ui (snd (patch_loop C self ?acc h sc grouped (Some c) (length ids) 0 ids
          \<lparr>world = w1, ui = u, calls = [LoadFramePatcher sc fr]\<rparr>))
     = fold (\<lambda>(f, m). call c f m)
         (progress_of (calls (snd (patch_loop C self ?acc h sc grouped (Some c) (length ids) 0 ids
          \<lparr>world = w1, ui = u, calls = [LoadFramePatcher sc fr]\<rparr>)))) u" for h w1
  proof (rule patch_loop_invariant
      [where P = "\<lambda>s. ui s = fold (\<lambda>(f, m). call c f m) (progress_of (calls s)) u"])
    show "ui \<lparr>world = w1, ui = u, calls = [LoadFramePatcher sc fr]\<rparr>
        = fold (\<lambda>(f, m). call c f m)
            (progress_of (calls \<lparr>world = w1, ui = u, calls = [LoadFramePatcher sc fr]\<rparr>)) u"
      by simp
  next
    fix i x s out t
    assume "ui s = fold (\<lambda>(f, m). call c f m) (progress_of (calls s)) u"
      and "patch_one C self ?acc h sc grouped (Some c) (length ids) i x s = (out, t)"
    then show "ui t = fold (\<lambda>(f, m). call c f m) (progress_of (calls t)) u"
      by (rule patch_one_invocations)
  qed
  show ?thesis
  proof (cases rule: patch_frame_cases [of C self sc fr w ids grouped "Some c" u])
    case (load_raises e w1)
    then show ?thesis by simp
  next
    case (loop_raises h w1 e s2)
    with loop [of h w1] show ?thesis by simp
  next
    case (returns h w1 s2)
    with loop [of h w1] report_invocations [of s2 c u 1 "''Patching complete!''"]
    show ?thesis by simp
  qed
qed

lemma patch_one_not_true:
  assumes "\<not> truthy c" and "patch_one C self acc h sc grouped (Some c) tot i x s = (out, t)"
    and "progress_of (calls s) = [] \<and> ui s = u"
  shows "progress_of (calls t) = [] \<and> ui t = u"
proof -
  have rep: "report_instance (Some c) tot i x s = Some s"
    using assms(1) by (simp add: report_instance_def is_true_def)
  from assms(2) show ?thesis
  proof (cases rule: patch_one_cases)
    case zero
    with assms(3) show ?thesis by simp
  next
    case (absent s1)
    with rep assms(3) show ?thesis by simp
  next
    case (merge_raises s1 e w2)
    with rep assms(3) show ?thesis by simp
  next
    case (patched s1 a w2 r w4)
    with rep assms(3) show ?thesis by simp
  qed
qed

lemma patch_frame_not_true:
  assumes "\<not> truthy c"
  shows "progress_of (calls (snd (patch_frame C self sc fr ids grouped (Some c) w u))) = []
     \<and> ui (snd (patch_frame C self sc fr ids grouped (Some c) w u)) = u"
proof -
  let ?acc = "\<lparr>step = ACCUMULATION_STEP, grouped_instances = grouped,
                accumulator_dataset = dataset self\<rparr>"
  have loop: "progress_of (calls (snd (patch_loop C self ?acc h sc grouped (Some c) (length ids) 0 ids
          \<lparr>world = w1, ui = u, calls = [LoadFramePatcher sc fr]\<rparr>))) = []
     \<and> ui (snd (patch_loop C self ?acc h sc grouped (Some c) (length ids) 0 ids
          \<lparr>world = w1, ui = u, calls = [LoadFramePatcher sc fr]\<rparr>)) = u" for h w1
  proof (rule patch_loop_invariant [where P = "\<lambda>s. progress_of (calls s) = [] \<and> ui s = u"])
    show "progress_of (calls \<lparr>world = w1, ui = u, calls = [LoadFramePatcher sc fr]\<rparr>) = []
        \<and> ui \<lparr>world = w1, ui = u, calls = [LoadFramePatcher sc fr]\<rparr> = u"
      by simp
  next
    fix i x s out t
    assume P: "progress_of (calls s) = [] \<and> ui s = u"
      and one: "patch_one C self ?acc h sc grouped (Some c) (length ids) i x s = (out, t)"
    from assms one P show "progress_of (calls t) = [] \<and> ui t = u"
      by (rule patch_one_not_true)
  qed
  show ?thesis
  proof (cases rule: patch_frame_cases [of C self sc fr w ids grouped "Some c" u])
    case (load_raises e w1)
    then show ?thesis by simp
  next
    case (loop_raises h w1 e s2)
    with loop [of h w1] show ?thesis by simp
  next
    case (returns h w1 s2)
    with loop [of h w1] assms show ?thesis by (simp add: report_def)
  qed
qed

text \<open>
  Claim C3, as amended. A callback that is true (every function is) is invoked, and with
  these arguments only: the state of the caller's interface at the end of the call is
  the result of calling the callback on the logged argument pairs in turn. A call that
  returns has invoked it once per instance id, in order, with the fraction
  \<open>i / total\<close>, and then exactly once more, last, with \<open>1\<close> and the message
  \<open>Patching complete!\<close>; a call that raises has invoked it only for a first part of
  the instance ids and makes no final invocation. Every fraction passed during the loop
  is at least \<open>0\<close> and below \<open>1\<close>. A callback that is not \<open>None\<close> but false is
  never invoked. The call without a callback has the same outcome, leaves the same world
  and makes the same collaborator calls. Fractions are exact rationals, and the callback
  is taken to return normally.
\<close>

theorem patch_frame_progress:
  "(truthy cb \<longrightarrow>
      (\<forall>r. fst (patch_frame C self scene_id frame_id instance_ids grouped (Some cb) w u) = Inr r \<longrightarrow>
        progress_of (calls (snd (patch_frame C self scene_id frame_id instance_ids grouped (Some cb) w u)))
          = map (\<lambda>(i, instance_id). (of_nat i / of_nat (length instance_ids),
                   ''Patching instance '' @ instance_id @ ''...''))
              (enumerate 0 instance_ids)
            @ [(1, ''Patching complete!'')])
      \<and> (\<forall>e. fst (patch_frame C self scene_id frame_id instance_ids grouped (Some cb) w u) = Inl e \<longrightarrow>
        (\<exists>k \<le> length instance_ids.
          progress_of (calls (snd (patch_frame C self scene_id frame_id instance_ids grouped (Some cb) w u)))
            = map (\<lambda>(i, instance_id). (of_nat i / of_nat (length instance_ids),
                     ''Patching instance '' @ instance_id @ ''...''))
                (take k (enumerate 0 instance_ids)))))
   \<and> ui (snd (patch_frame C self scene_id frame_id instance_ids grouped (Some cb) w u))
       = fold (\<lambda>(fraction, message). call cb fraction message)
           (progress_of (calls (snd (patch_frame C self scene_id frame_id instance_ids grouped
              (Some cb) w u)))) u
   \<and> (\<forall>(i, instance_id) \<in> set (enumerate 0 instance_ids).
        0 \<le> (of_nat i / of_nat (length instance_ids) :: rat)
        \<and> (of_nat i / of_nat (length instance_ids) :: rat) < 1)
   \<and> (\<not> truthy cb \<longrightarrow>
        progress_of (calls (snd (patch_frame C self scene_id frame_id instance_ids grouped
              (Some cb) w u))) = []
        \<and> ui (snd (patch_frame C self scene_id frame_id instance_ids grouped (Some cb) w u)) = u)
   \<and> effects (patch_frame C self scene_id frame_id instance_ids grouped None w u)
       = effects (patch_frame C self scene_id frame_id instance_ids grouped (Some cb) w u)"
proof -
  let ?pf = "patch_frame C self scene_id frame_id instance_ids grouped (Some cb) w u"
  let ?n = "length instance_ids"
  let ?F = "\<lambda>(i, instance_id). (of_nat i / of_nat ?n :: rat,
                 ''Patching instance '' @ instance_id @ ''...'')"
  let ?acc = "\<lparr>step = ACCUMULATION_STEP, grouped_instances = grouped,
                accumulator_dataset = dataset self\<rparr>"
  have loop: "\<exists>k \<le> ?n.
     progress_of (calls (snd (patch_loop C self ?acc h scene_id grouped (Some cb) ?n 0
          instance_ids \<lparr>world = w1, ui = u, calls = [LoadFramePatcher scene_id frame_id]\<rparr>)))
       = map ?F (take k (enumerate 0 instance_ids))
     \<and> (fst (patch_loop C self ?acc h scene_id grouped (Some cb) ?n 0
          instance_ids \<lparr>world = w1, ui = u, calls = [LoadFramePatcher scene_id frame_id]\<rparr>) = Inr ()
         \<longrightarrow> k = ?n)" if "truthy cb" for h w1
  proof (cases "instance_ids = []")
    case True
    then show ?thesis by simp
  next
    case False
    then have "0 < ?n" by simp
    from patch_loop_progress [OF this that, of instance_ids C self ?acc h scene_id grouped 0
        "\<lparr>world = w1, ui = u, calls = [LoadFramePatcher scene_id frame_id]\<rparr>"]
    show ?thesis by simp
  qed
  have ret: "\<forall>r. fst ?pf = Inr r \<longrightarrow>
      progress_of (calls (snd ?pf)) = map ?F (enumerate 0 instance_ids) @ [(1, ''Patching complete!'')]"
    if t: "truthy cb"
  proof (cases rule: patch_frame_cases [of C self scene_id frame_id w instance_ids grouped "Some cb" u])
    case (load_raises e w1)
    then show ?thesis by simp
  next
    case (loop_raises h w1 e s2)
    then show ?thesis by simp
  next
    case (returns h w1 s2)
    with loop [OF t, of h w1] t show ?thesis by (auto simp: report_def)
  qed
  have raised: "\<forall>e. fst ?pf = Inl e \<longrightarrow>
      (\<exists>k \<le> ?n. progress_of (calls (snd ?pf)) = map ?F (take k (enumerate 0 instance_ids)))"
    if t: "truthy cb"
  proof (cases rule: patch_frame_cases [of C self scene_id frame_id w instance_ids grouped "Some cb" u])
    case (load_raises e w1)
    then show ?thesis by (auto intro: exI [of _ 0])
  next
    case (loop_raises h w1 e s2)
    with loop [OF t, of h w1] show ?thesis by auto
  next
    case (returns h w1 s2)
    then show ?thesis by simp
  qed
  have inv: "ui (snd ?pf) = fold (\<lambda>(fraction, message). call cb fraction message)
           (progress_of (calls (snd ?pf))) u"
    by (rule patch_frame_invocations)
  have fr: "\<forall>(i, instance_id) \<in> set (enumerate 0 instance_ids).
        0 \<le> (of_nat i / of_nat ?n :: rat) \<and> (of_nat i / of_nat ?n :: rat) < 1"
    using loop_fractions [of _ _ instance_ids] by blast
  have falsy: "\<not> truthy cb \<longrightarrow> progress_of (calls (snd ?pf)) = [] \<and> ui (snd ?pf) = u"
    using patch_frame_not_true [of cb C self scene_id frame_id instance_ids grouped w u] by blast
  have same: "effects (patch_frame C self scene_id frame_id instance_ids grouped None w u)
       = effects ?pf"
    by (rule patch_frame_callback_irrelevant [symmetric])
  from ret raised inv fr falsy same show ?thesis by blast
qed

subsection \<open>Exceptions\<close>

lemma patch_frame_never_zero_division:
  "fst (patch_frame C self sc fr ids grouped cb w u) \<noteq> Inl ZeroDivisionError"
proof (cases rule: patch_frame_cases [of C self sc fr w ids grouped cb u])
  case (load_raises e w1)
  then show ?thesis by simp
next
  case (loop_raises h w1 e s2)
  have "\<not> is_true cb \<or> ids = [] \<or> 0 < length ids" by auto
  from patch_loop_no_zero_division [OF this] loop_raises(2) have "e \<noteq> ZeroDivisionError"
    by (metis fst_conv)
  with loop_raises(3) show ?thesis by simp
next
  case (returns h w1 s2)
  then show ?thesis by simp
qed

lemma patch_loop_raises_at:
  assumes pre: "patch_loop C self acc h sc grouped cb tot 0 pre s = (Inr (), s1)"
    and one: "patch_one C self acc h sc grouped cb tot (length pre) x s1 = (Inl e, t)"
  shows "patch_loop C self acc h sc grouped cb tot 0 (pre @ x # post) s = (Inl e, t)"
  using assms by (simp add: patch_loop_append)

text \<open>
  Claim C7. An exception raised by a collaborator leaves \<open>patch_frame\<close> as it was
  raised. If \<open>load_frame_patcher\<close> raises, the call ends with that exception after that
  one call. If, after the instance ids \<open>pre\<close> have been processed, \<open>merge\<close> or
  \<open>patch_instance\<close> raises for the next id, the call ends with that exception; the
  world is the one the failing collaborator left behind, which contains the patches of
  the ids before it (nothing is rolled back), and the failing call is the last
  collaborator call made (nothing is retried). No other exception arises:
  the division \<open>i / total\<close> never raises.
\<close>

theorem patch_frame_propagates:
  "(load_frame_patcher C (dataset self) scene_id frame_id w = (Inl e, w1) \<longrightarrow>
      patch_frame C self scene_id frame_id instance_ids grouped progress_callback w u
        = (Inl (Raised e), \<lparr>world = w1, ui = u, calls = [LoadFramePatcher scene_id frame_id]\<rparr>))
   \<and> (load_frame_patcher C (dataset self) scene_id frame_id w = (Inr patcher, w1)
       \<and> instance_ids = pre @ instance_id # post
       \<and> patch_loop C self
            \<lparr>step = ACCUMULATION_STEP, grouped_instances = grouped,
             accumulator_dataset = dataset self\<rparr>
            patcher scene_id grouped progress_callback (length instance_ids) 0 pre
            \<lparr>world = w1, ui = u, calls = [LoadFramePatcher scene_id frame_id]\<rparr> = (Inr (), s1)
       \<and> grouped instance_id \<noteq> None
       \<and> merge C \<lparr>step = ACCUMULATION_STEP, grouped_instances = grouped,
                   accumulator_dataset = dataset self\<rparr>
            scene_id instance_id (strategy self) (world s1) = (Inl e, w2) \<longrightarrow>
      fst (patch_frame C self scene_id frame_id instance_ids grouped progress_callback w u)
        = Inl (Raised e)
      \<and> world (snd (patch_frame C self scene_id frame_id instance_ids grouped progress_callback w u))
        = w2
      \<and> collaborator_calls (calls (snd (patch_frame C self scene_id frame_id instance_ids grouped
             progress_callback w u)))
        = collaborator_calls (calls s1)
          @ [Merge ACCUMULATION_STEP scene_id instance_id (strategy self)])
   \<and> (load_frame_patcher C (dataset self) scene_id frame_id w = (Inr patcher, w1)
       \<and> instance_ids = pre @ instance_id # post
       \<and> patch_loop C self
            \<lparr>step = ACCUMULATION_STEP, grouped_instances = grouped,
             accumulator_dataset = dataset self\<rparr>
            patcher scene_id grouped progress_callback (length instance_ids) 0 pre
            \<lparr>world = w1, ui = u, calls = [LoadFramePatcher scene_id frame_id]\<rparr> = (Inr (), s1)
       \<and> grouped instance_id \<noteq> None
       \<and> merge C \<lparr>step = ACCUMULATION_STEP, grouped_instances = grouped,
                   accumulator_dataset = dataset self\<rparr>
            scene_id instance_id (strategy self) (world s1) = (Inr a, w2)
       \<and> patch_instance C patcher instance_id (length (heap w2))
            (w2\<lparr>heap := heap w2 @ [heap w2 ! a]\<rparr>) = (Inl e, w4) \<longrightarrow>
      fst (patch_frame C self scene_id frame_id instance_ids grouped progress_callback w u)
        = Inl (Raised e)
      \<and> world (snd (patch_frame C self scene_id frame_id instance_ids grouped progress_callback w u))
        = w4
      \<and> collaborator_calls (calls (snd (patch_frame C self scene_id frame_id instance_ids grouped
             progress_callback w u)))
        = collaborator_calls (calls s1)
          @ [Merge ACCUMULATION_STEP scene_id instance_id (strategy self),
             NpCopy a (length (heap w2)), PatchInstance instance_id (length (heap w2))])
   \<and> fst (patch_frame C self scene_id frame_id instance_ids grouped progress_callback w u)
        \<noteq> Inl ZeroDivisionError"
proof -
  let ?acc = "\<lparr>step = ACCUMULATION_STEP, grouped_instances = grouped,
                accumulator_dataset = dataset self\<rparr>"
  let ?s0 = "\<lparr>world = w1, ui = u, calls = [LoadFramePatcher scene_id frame_id]\<rparr>"
  let ?pf = "patch_frame C self scene_id frame_id instance_ids grouped progress_callback w u"
  let ?n = "length instance_ids"
  have A: "load_frame_patcher C (dataset self) scene_id frame_id w = (Inl e, w1) \<longrightarrow>
      ?pf = (Inl (Raised e), ?s0)"
    by (simp add: patch_frame_load_raises)
  {
    assume load: "load_frame_patcher C (dataset self) scene_id frame_id w = (Inr patcher, w1)"
      and ids: "instance_ids = pre @ instance_id # post"
      and pre: "patch_loop C self ?acc patcher scene_id grouped progress_callback ?n 0 pre ?s0
                 = (Inr (), s1)"
      and present: "grouped instance_id \<noteq> None"
    from ids have "\<not> is_true progress_callback \<or> 0 < ?n" by simp
    then obtain s1' where rep:
      "report_instance progress_callback ?n (length pre) instance_id s1 = Some s1'"
      using report_instance_ok by blast
    note rw = report_instance_world [OF rep]
    {
      assume m: "merge C ?acc scene_id instance_id (strategy self) (world s1) = (Inl e, w2)"
      with rw have m': "merge C ?acc scene_id instance_id (strategy self) (world s1') = (Inl e, w2)"
        by simp
      have one: "patch_one C self ?acc patcher scene_id grouped progress_callback ?n (length pre)
            instance_id s1 =
         (Inl (Raised e), s1'\<lparr>world := w2,
            calls := calls s1' @ [Merge (step ?acc) scene_id instance_id (strategy self)]\<rparr>)"
        using present rep m' by (rule patch_one_merge_raises)
      from patch_loop_raises_at [OF pre one, of post] ids
      have "patch_loop C self ?acc patcher scene_id grouped progress_callback ?n 0
              instance_ids ?s0 =
         (Inl (Raised e), s1'\<lparr>world := w2,
            calls := calls s1' @ [Merge (step ?acc) scene_id instance_id (strategy self)]\<rparr>)"
        by simp
      with load have "?pf = (Inl (Raised e), s1'\<lparr>world := w2,
            calls := calls s1' @ [Merge (step ?acc) scene_id instance_id (strategy self)]\<rparr>)"
        by (simp add: patch_frame_loaded)
      with rw have "fst ?pf = Inl (Raised e) \<and> world (snd ?pf) = w2
        \<and> collaborator_calls (calls (snd ?pf)) = collaborator_calls (calls s1)
            @ [Merge ACCUMULATION_STEP scene_id instance_id (strategy self)]"
        by (simp add: collaborator_calls_def)
    }
    note B = this
    {
      assume m: "merge C ?acc scene_id instance_id (strategy self) (world s1) = (Inr a, w2)"
        and p: "patch_instance C patcher instance_id (length (heap w2))
                  (w2\<lparr>heap := heap w2 @ [heap w2 ! a]\<rparr>) = (Inl e, w4)"
      from m rw have m': "merge C ?acc scene_id instance_id (strategy self) (world s1') = (Inr a, w2)"
        by simp
      have "patch_one C self ?acc patcher scene_id grouped progress_callback ?n (length pre)
            instance_id s1 =
         (case (Inl e :: 'a + unit) of Inl e \<Rightarrow> Inl (Raised e) | Inr _ \<Rightarrow> Inr (),
          s1'\<lparr>world := w4,
            calls := calls s1' @ [Merge (step ?acc) scene_id instance_id (strategy self),
              NpCopy a (length (heap w2)), PatchInstance instance_id (length (heap w2))]\<rparr>)"
        using present rep m' p by (rule patch_one_patches)
      then have one: "patch_one C self ?acc patcher scene_id grouped progress_callback ?n (length pre)
            instance_id s1 =
         (Inl (Raised e),
          s1'\<lparr>world := w4,
            calls := calls s1' @ [Merge (step ?acc) scene_id instance_id (strategy self),
              NpCopy a (length (heap w2)), PatchInstance instance_id (length (heap w2))]\<rparr>)"
        by simp
      from patch_loop_raises_at [OF pre one, of post] ids load
      have "?pf = (Inl (Raised e),
          s1'\<lparr>world := w4,
            calls := calls s1' @ [Merge (step ?acc) scene_id instance_id (strategy self),
              NpCopy a (length (heap w2)), PatchInstance instance_id (length (heap w2))]\<rparr>)"
        by (simp add: patch_frame_loaded)
      with rw have "fst ?pf = Inl (Raised e) \<and> world (snd ?pf) = w4
        \<and> collaborator_calls (calls (snd ?pf)) = collaborator_calls (calls s1)
            @ [Merge ACCUMULATION_STEP scene_id instance_id (strategy self),
               NpCopy a (length (heap w2)), PatchInstance instance_id (length (heap w2))]"
        by (simp add: collaborator_calls_def)
    }
    note B and this
  }
  note BC = this
  have D: "fst ?pf \<noteq> Inl ZeroDivisionError" by (rule patch_frame_never_zero_division)
  from A BC(1) BC(2) D show ?thesis by blast
qed

subsection \<open>Copies of the accumulated arrays\<close>








subsection \<open>Runs on the test doubles\<close>

lemmas demo_simps = patch_frame_def patch_one_def report_instance_def report_def is_true_def
  np_copy_def
  demo_def demo_service_def init_def get_strategy_def demo_grouped_def demo_world_def
  ACCUMULATION_STEP_def Let_def

lemma demo_run_returns:
  "patch_frame demo demo_service ''s1'' ''f0'' [''7'', ''42'', ''7''] demo_grouped None demo_world ()
     = (Inr (0, 1),
        \<lparr>world = \<lparr>heap = [[10, 11, 12, 20, 21, 3, 20, 21, 3], [7, 7, 0], [20, 21, 3], [20, 21, 3],
                          [20, 21, 3], [20, 21, 3]], ext = ()\<rparr>,
         ui = (),
         calls = [LoadFramePatcher ''s1'' ''f0'',
                  Merge 3 ''s1'' ''7'' DefaultAccumulatorStrategy, NpCopy 2 3, PatchInstance ''7'' 3,
                  Merge 3 ''s1'' ''7'' DefaultAccumulatorStrategy, NpCopy 4 5, PatchInstance ''7'' 5]\<rparr>)"
  by (simp add: demo_simps)

lemma demo_run_progress:
  "patch_frame demo demo_service ''s1'' ''f0'' [''7'', ''42''] demo_grouped
       (Some (Callback True (\<lambda>f m u. u @ [(f, m)]))) demo_world []
     = (Inr (0, 1),
        \<lparr>world = \<lparr>heap = [[10, 11, 12, 20, 21, 3], [7, 7, 0], [20, 21, 3], [20, 21, 3]], ext = ()\<rparr>,
         ui = [(0, ''Patching instance 7...''), (1 / 2, ''Patching instance 42...''),
               (1, ''Patching complete!'')],
         calls = [LoadFramePatcher ''s1'' ''f0'',
                  ProgressCallback 0 ''Patching instance 7...'',
                  Merge 3 ''s1'' ''7'' DefaultAccumulatorStrategy, NpCopy 2 3, PatchInstance ''7'' 3,
                  ProgressCallback (1 / 2) ''Patching instance 42...'',
                  ProgressCallback 1 ''Patching complete!'']\<rparr>)"
  by (simp add: demo_simps)

lemma demo_load:
  "load_frame_patcher demo (dataset demo_service) ''s1'' ''f0'' demo_world
     = (Inr 0, \<lparr>heap = [[10, 11, 12], [7, 7, 0]], ext = ()\<rparr>)"
  by (simp add: demo_simps)

lemma demo_load_missing:
  "load_frame_patcher demo (dataset demo_service) ''s1'' ''missing'' demo_world
     = (Inl ''FileNotFoundError'', demo_world)"
  by (simp add: demo_simps)


theorem patch_frame_no_instances_witness:
  "load_frame_patcher demo (dataset demo_service) ''s1'' ''f0'' demo_world
     = (Inr 0, \<lparr>heap = [[10, 11, 12], [7, 7, 0]], ext = ()\<rparr>)
   \<and> fst (patch_frame demo demo_service ''s1'' ''f0'' [] demo_grouped
            (Some (Callback True (\<lambda>f m u. u @ [(f, m)]))) demo_world []) = Inr (0, 1)
   \<and> world (snd (patch_frame demo demo_service ''s1'' ''f0'' [] demo_grouped
            (Some (Callback True (\<lambda>f m u. u @ [(f, m)]))) demo_world []))
       = \<lparr>heap = [[10, 11, 12], [7, 7, 0]], ext = ()\<rparr>"
  using patch_frame_no_instances [OF demo_load, of demo_grouped "Some (Callback True (\<lambda>f m u. u @ [(f, m)]))" "[]"]
    demo_load
  by (simp add: demo_def)

theorem patch_frame_progress_witness:
  "truthy (Callback True (\<lambda>f m u. u @ [(f :: rat, m :: string)]))
   \<and> fst (patch_frame demo demo_service ''s1'' ''f0'' [''7'', ''42''] demo_grouped
          (Some (Callback True (\<lambda>f m u. u @ [(f, m)]))) demo_world []) = Inr (0, 1)
   \<and> progress_of (calls (snd (patch_frame demo demo_service ''s1'' ''f0'' [''7'', ''42'']
          demo_grouped (Some (Callback True (\<lambda>f m u. u @ [(f, m)]))) demo_world [])))
       = [(0, ''Patching instance 7...''), (1 / 2, ''Patching instance 42...''),
          (1, ''Patching complete!'')]
   \<and> ui (snd (patch_frame demo demo_service ''s1'' ''f0'' [''7'', ''42'']
          demo_grouped (Some (Callback True (\<lambda>f m u. u @ [(f, m)]))) demo_world []))
       = [(0, ''Patching instance 7...''), (1 / 2, ''Patching instance 42...''),
          (1, ''Patching complete!'')]
   \<and> fst (patch_frame demo demo_service ''s1'' ''f0'' [''7'', ''42''] demo_grouped None
          demo_world ([] :: (rat \<times> string) list)) = Inr (0, 1)"
proof -
  let ?cb = "Callback True (\<lambda>f m u. u @ [(f :: rat, m :: string)])"
  let ?pf = "patch_frame demo demo_service ''s1'' ''f0'' [''7'', ''42''] demo_grouped
          (Some ?cb) demo_world []"
  have tr: "truthy ?cb" by simp
  have ret: "fst ?pf = Inr (0, 1)" by (simp add: demo_run_progress)
  note t = patch_frame_progress [of ?cb demo demo_service "''s1''" "''f0''" "[''7'', ''42'']"
      demo_grouped demo_world "[]"]
  from t tr ret have "progress_of (calls (snd ?pf))
      = map (\<lambda>(i, instance_id). (of_nat i / of_nat (length [''7'', ''42'']),
                 ''Patching instance '' @ instance_id @ ''...''))
            (enumerate 0 [''7'', ''42''])
          @ [(1, ''Patching complete!'')]"
    by blast
  then have p: "progress_of (calls (snd ?pf))
       = [(0, ''Patching instance 7...''), (1 / 2, ''Patching instance 42...''),
          (1, ''Patching complete!'')]"
    by simp
  from t have "ui (snd ?pf) = fold (\<lambda>(fraction, message). call ?cb fraction message)
           (progress_of (calls (snd ?pf))) []"
    by blast
  then have u: "ui (snd ?pf)
       = [(0, ''Patching instance 7...''), (1 / 2, ''Patching instance 42...''),
          (1, ''Patching complete!'')]"
    unfolding p by simp
  from t have "effects (patch_frame demo demo_service ''s1'' ''f0'' [''7'', ''42''] demo_grouped None
          demo_world ([] :: (rat \<times> string) list)) = effects ?pf"
    by blast
  with ret have "fst (patch_frame demo demo_service ''s1'' ''f0'' [''7'', ''42''] demo_grouped None
          demo_world ([] :: (rat \<times> string) list)) = Inr (0, 1)"
    by (simp add: effects_def)
  with tr ret p u show ?thesis by blast
qed

text \<open>
  Claim C3 as stated fails on two kinds of call with a callback that is not \<open>None\<close>
  and a non-empty list of instance ids. A callback whose truth value is false is never
  invoked, so a call that returns has made no invocation with \<open>1\<close>. And a call in
  which a collaborator raises (here \<open>merge\<close> for instance \<open>13\<close>) ends without the
  final invocation.
\<close>

theorem patch_frame_progress_counterexample:
  "fst (patch_frame demo demo_service ''s1'' ''f0'' [''7''] demo_grouped
          (Some (Callback False (\<lambda>f m u. u @ [(f, m)]))) demo_world []) = Inr (0, 1)
   \<and> ui (snd (patch_frame demo demo_service ''s1'' ''f0'' [''7''] demo_grouped
          (Some (Callback False (\<lambda>f m u. u @ [(f, m)]))) demo_world [])) = []
   \<and> fst (patch_frame demo demo_service ''s1'' ''f0'' [''7'', ''13''] demo_grouped
          (Some (Callback True (\<lambda>f m u. u @ [(f, m)]))) demo_world [])
       = Inl (Raised ''KeyError'')
   \<and> ui (snd (patch_frame demo demo_service ''s1'' ''f0'' [''7'', ''13''] demo_grouped
          (Some (Callback True (\<lambda>f m u. u @ [(f, m)]))) demo_world []))
       = [(0, ''Patching instance 7...''), (1 / 2, ''Patching instance 13...'')]"
  by (simp add: demo_simps)

theorem patch_frame_stride_witness:
  "set (merge_steps (calls (snd (patch_frame demo demo_service ''s1'' ''f0'' [''7'', ''42'', ''7'']
       demo_grouped None demo_world ())))) \<subseteq> {ACCUMULATION_STEP}
   \<and> merge_steps (calls (snd (patch_frame demo demo_service ''s1'' ''f0'' [''7'', ''42'', ''7'']
       demo_grouped None demo_world ()))) = [3, 3]"
  using patch_frame_stride [of demo demo_service "''s1''" "''f0''" "[''7'', ''42'', ''7'']"
      demo_grouped None demo_world "()"]
  by (simp add: demo_run_returns)

text \<open>
  Claim C4 as stated fails: a caller cannot have the accumulator built with stride 1.
  On the test doubles, with either strategy, the accumulator that reaches \<open>merge\<close>
  has stride 3, and no argument of the service or of \<open>patch_frame\<close> carries a
  stride.
\<close>

theorem patch_frame_stride_counterexample:
  "merge_steps (calls (snd (patch_frame demo (init () ''default'') ''s1'' ''f0'' [''7'']
       demo_grouped None demo_world ()))) = [3]
   \<and> merge_steps (calls (snd (patch_frame demo (init () ''greedy_grid'') ''s1'' ''f0'' [''7'']
       demo_grouped None demo_world ()))) = [3]
   \<and> (3 :: int) \<noteq> 1"
  by (simp add: demo_simps)


theorem patch_frame_propagates_witness:
  "patch_frame demo demo_service ''s1'' ''missing'' [''7''] demo_grouped None demo_world ()
     = (Inl (Raised ''FileNotFoundError''),
        \<lparr>world = demo_world, ui = (), calls = [LoadFramePatcher ''s1'' ''missing'']\<rparr>)
   \<and> fst (patch_frame demo demo_service ''s1'' ''f0'' [''7'', ''42'', ''13'', ''7''] demo_grouped None
          demo_world ()) = Inl (Raised ''KeyError'')
   \<and> world (snd (patch_frame demo demo_service ''s1'' ''f0'' [''7'', ''42'', ''13'', ''7'']
          demo_grouped None demo_world ()))
       = \<lparr>heap = [[10, 11, 12, 20, 21, 3], [7, 7, 0], [20, 21, 3], [20, 21, 3]], ext = ()\<rparr>
   \<and> collaborator_calls (calls (snd (patch_frame demo demo_service ''s1'' ''f0''
          [''7'', ''42'', ''13'', ''7''] demo_grouped None demo_world ())))
       = [LoadFramePatcher ''s1'' ''f0'',
          Merge 3 ''s1'' ''7'' DefaultAccumulatorStrategy, NpCopy 2 3, PatchInstance ''7'' 3,
          Merge 3 ''s1'' ''13'' DefaultAccumulatorStrategy]
   \<and> fst (patch_frame demo demo_service ''s1'' ''f0'' [''7'', ''99'', ''7''] demo_grouped None
          demo_world ()) = Inl (Raised ''ValueError'')
   \<and> world (snd (patch_frame demo demo_service ''s1'' ''f0'' [''7'', ''99'', ''7'']
          demo_grouped None demo_world ()))
       = \<lparr>heap = [[10, 11, 12, 20, 21, 3], [7, 7, 0], [20, 21, 3], [20, 21, 3], [20, 21, 3],
                  [20, 21, 3]], ext = ()\<rparr>"
proof -
  let ?acc = "\<lparr>step = ACCUMULATION_STEP, grouped_instances = demo_grouped,
                accumulator_dataset = dataset demo_service\<rparr>"
  let ?w1 = "\<lparr>heap = [[10, 11, 12], [7, 7, 0 :: int]], ext = ()\<rparr>"
  let ?s0 = "\<lparr>world = ?w1, ui = (), calls = [LoadFramePatcher ''s1'' ''f0'']\<rparr>"
  let ?s1 = "\<lparr>world = \<lparr>heap = [[10, 11, 12, 20, 21, 3], [7, 7, 0], [20, 21, 3], [20, 21, 3 :: int]],
                         ext = ()\<rparr>,
               ui = (),
               calls = [LoadFramePatcher ''s1'' ''f0'',
                 Merge 3 ''s1'' ''7'' DefaultAccumulatorStrategy, NpCopy 2 3, PatchInstance ''7'' 3]\<rparr>"
  let ?w2 = "\<lparr>heap = [[10, 11, 12, 20, 21, 3], [7, 7, 0], [20, 21, 3], [20, 21, 3], [20, 21, 3 :: int]],
               ext = ()\<rparr>"
  let ?w3 = "\<lparr>heap = [[10, 11, 12, 20, 21, 3], [7, 7, 0], [20, 21, 3], [20, 21, 3], [20, 21, 3],
                      [20, 21, 3 :: int]], ext = ()\<rparr>"
  have a: "patch_frame demo demo_service ''s1'' ''missing'' [''7''] demo_grouped None demo_world ()
     = (Inl (Raised ''FileNotFoundError''),
        \<lparr>world = demo_world, ui = (), calls = [LoadFramePatcher ''s1'' ''missing'']\<rparr>)"
    using patch_frame_propagates [where C = demo and self = demo_service and scene_id = "''s1''"
        and frame_id = "''missing''" and w = demo_world and e = "''FileNotFoundError''"
        and ?w1.0 = demo_world and instance_ids = "[''7'']" and grouped = demo_grouped
        and progress_callback = None and u = "()"]
      demo_load_missing
    by blast
  have pre2: "patch_loop demo demo_service ?acc 0 ''s1'' demo_grouped None
        (length [''7'', ''42'', ''13'', ''7'']) 0 [''7'', ''42''] ?s0 = (Inr (), ?s1)"
    by (simp add: demo_simps)
  have pre1: "patch_loop demo demo_service ?acc 0 ''s1'' demo_grouped None
        (length [''7'', ''99'', ''7'']) 0 [''7''] ?s0 = (Inr (), ?s1)"
    by (simp add: demo_simps)
  have g13: "demo_grouped ''13'' \<noteq> None" and g99: "demo_grouped ''99'' \<noteq> None"
    by (simp_all add: demo_grouped_def)
  have m13: "merge demo ?acc ''s1'' ''13'' (strategy demo_service) (world ?s1)
      = (Inl ''KeyError'', world ?s1)"
    by (simp add: demo_def)
  have m99: "merge demo ?acc ''s1'' ''99'' (strategy demo_service) (world ?s1) = (Inr 4, ?w2)"
    by (simp add: demo_def ACCUMULATION_STEP_def)
  have p99: "patch_instance demo 0 ''99'' (length (heap ?w2))
        (?w2\<lparr>heap := heap ?w2 @ [heap ?w2 ! 4]\<rparr>) = (Inl ''ValueError'', ?w3)"
    by (simp add: demo_def)
  have split2: "[''7'', ''42'', ''13'', ''7''] = [''7'', ''42''] @ ''13'' # [''7'']"
    and split1: "[''7'', ''99'', ''7''] = [''7''] @ ''99'' # [''7'']"
    by simp_all
  have b: "fst (patch_frame demo demo_service ''s1'' ''f0'' [''7'', ''42'', ''13'', ''7'']
             demo_grouped None demo_world ()) = Inl (Raised ''KeyError'')
      \<and> world (snd (patch_frame demo demo_service ''s1'' ''f0'' [''7'', ''42'', ''13'', ''7'']
             demo_grouped None demo_world ())) = world ?s1
      \<and> collaborator_calls (calls (snd (patch_frame demo demo_service ''s1'' ''f0''
             [''7'', ''42'', ''13'', ''7''] demo_grouped None demo_world ())))
          = collaborator_calls (calls ?s1)
            @ [Merge ACCUMULATION_STEP ''s1'' ''13'' (strategy demo_service)]"
    using patch_frame_propagates [where C = demo and self = demo_service and scene_id = "''s1''"
        and frame_id = "''f0''" and w = demo_world and e = "''KeyError''"
        and ?w1.0 = ?w1 and instance_ids = "[''7'', ''42'', ''13'', ''7'']" and grouped = demo_grouped
        and progress_callback = None and u = "()" and patcher = 0 and pre = "[''7'', ''42'']"
        and instance_id = "''13''" and post = "[''7'']" and ?s1.0 = ?s1 and ?w2.0 = "world ?s1"]
      demo_load pre2 g13 m13 split2
    by blast
  have c: "fst (patch_frame demo demo_service ''s1'' ''f0'' [''7'', ''99'', ''7'']
             demo_grouped None demo_world ()) = Inl (Raised ''ValueError'')
      \<and> world (snd (patch_frame demo demo_service ''s1'' ''f0'' [''7'', ''99'', ''7'']
             demo_grouped None demo_world ())) = ?w3"
    using patch_frame_propagates [where C = demo and self = demo_service and scene_id = "''s1''"
        and frame_id = "''f0''" and w = demo_world and e = "''ValueError''"
        and ?w1.0 = ?w1 and instance_ids = "[''7'', ''99'', ''7'']" and grouped = demo_grouped
        and progress_callback = None and u = "()" and patcher = 0 and pre = "[''7'']"
        and instance_id = "''99''" and post = "[''7'']" and ?s1.0 = ?s1 and ?w2.0 = ?w2
        and a = 4 and ?w4.0 = ?w3]
      demo_load pre1 g99 m99 p99 split1
    by blast
  have cc: "collaborator_calls (calls ?s1)
            @ [Merge ACCUMULATION_STEP ''s1'' ''13'' (strategy demo_service)]
      = [LoadFramePatcher ''s1'' ''f0'',
          Merge 3 ''s1'' ''7'' DefaultAccumulatorStrategy, NpCopy 2 3, PatchInstance ''7'' 3,
          Merge 3 ''s1'' ''13'' DefaultAccumulatorStrategy]"
    by (simp add: collaborator_calls_def demo_simps)
  from a b c show ?thesis unfolding cc by simp
qed

end
